theory Spec2Isabelle
  imports Main "HOL-Library.AList" "HOL-Library.Char_ord" "HOL-Library.List_Lexorder"
begin

section \<open>Errors and the remote document protocol\<close>

text \<open>
  The repository holds two variants of the attendance application in one file:
  the evidence module (composite evidence records keyed by worker and day, database
  AsistenciasPRODB) and the application script (append-only evidence records with
  generated keys, database AsistenciasDB).  Both mirror their local collections to
  one file of a remote Gist.  Every rejection of a promise and every thrown
  exception of the source is a value of \<open>js_error\<close>.
\<close>

datatype js_error =
    Gist_not_found      \<comment> \<open>\<open>Error("Gist not found (404). Check Gist ID.")\<close>\<close>
  | Network_failure     \<comment> \<open>\<open>fetch\<close> itself rejected\<close>
  | Type_error          \<comment> \<open>a property read on \<open>undefined\<close>\<close>
  | Syntax_error        \<comment> \<open>\<open>response.json()\<close> or \<open>JSON.parse\<close> failed\<close>
  | Config_required     \<comment> \<open>\<open>Error("Gist ID y Token de GitHub son requeridos ...")\<close>\<close>
  | File_missing        \<comment> \<open>the named file is not in the Gist\<close>
  | Constraint_error    \<comment> \<open>\<open>store.add\<close> of a key that is already present\<close>
  | Abort_error         \<comment> \<open>the transaction was aborted under a pending request\<close>
  | Http_error nat      \<comment> \<open>\<open>Error(`HTTP ${res.status}`)\<close> of the evidence module\<close>

datatype http_method = GET | PATCH

text \<open>
  The content of the synchronised file.  \<open>JSON.stringify\<close> and \<open>JSON.parse\<close> are
  not modelled as text: the file content is the structured value itself, and a
  content that does not parse is \<open>None\<close> where it is read.
\<close>

record ('u, 'e) snapshot =
  users :: "'u list"
  evidences :: "'e list"
  lastSync :: "string option"

record 'c patch_body =
  description :: string
  files :: "(string \<times> 'c) list"

record 'c request =
  req_method :: http_method
  url :: string
  headers :: "(string \<times> string) list"
  body :: "'c patch_body option"

text \<open>
  A response: its status and, when its body is JSON, the \<open>files\<close> map of the Gist
  (file name to parsed content).
\<close>

record 'c response =
  status :: nat
  json :: "(string \<times> 'c option) list option"

definition ok :: "'c response \<Rightarrow> bool" where
  "ok r = (200 \<le> status r \<and> status r \<le> 299)"

datatype 'c fetch_outcome = Fetch_failed | Fetch_response "'c response"

text \<open>
  The remote endpoint: what the \<open>n\<close>-th \<open>fetch\<close> of one call (counted from 0)
  produces for a request.
\<close>

type_synonym 'c server = "'c request \<Rightarrow> nat \<Rightarrow> 'c fetch_outcome"

datatype 'c fetch_result = Resolved "'c response" | Resolved_undefined | Rejected js_error

text \<open>What a call did on the network: the requests sent and the delays slept (ms).\<close>

record 'c trace =
  requests :: "'c request list"
  delays :: "nat list"

definition no_traffic :: "'c trace" where
  "no_traffic = \<lparr>requests = [], delays = []\<rparr>"

subsection \<open>\<open>fetchWithBackoff\<close>\<close>

text \<open>
  The \<open>for\<close> loop of \<open>fetchWithBackoff\<close> at index \<open>i\<close>.  The \<open>throw\<close> of the 404
  branch stands inside the \<open>try\<close> block, so the \<open>catch\<close> of the same iteration
  receives it, exactly as it receives a rejection of \<open>fetch\<close>: the error is rethrown
  only when \<open>i = retries - 1\<close>.  After the \<open>try\<close> statement every iteration that did
  not return or rethrow sleeps \<open>2 ^ i\<close> seconds.  When the loop ends the function
  returns \<open>undefined\<close>.
\<close>

function fetch_loop ::
  "'c server \<Rightarrow> 'c request \<Rightarrow> nat \<Rightarrow> nat \<Rightarrow> 'c trace \<Rightarrow> 'c fetch_result \<times> 'c trace" where
  "fetch_loop srv req retries i tr =
     (if i < retries then
        (let tr1 = tr\<lparr>requests := requests tr @ [req]\<rparr>;
             tr2 = tr1\<lparr>delays := delays tr1 @ [2 ^ i * 1000]\<rparr>
         in case srv req i of
              Fetch_failed \<Rightarrow>
                if i = retries - 1 then (Rejected Network_failure, tr1)
                else fetch_loop srv req retries (i + 1) tr2
            | Fetch_response r \<Rightarrow>
                if ok r then (Resolved r, tr1)
                else if status r = 404 then
                  (if i = retries - 1 then (Rejected Gist_not_found, tr1)
                   else fetch_loop srv req retries (i + 1) tr2)
                else fetch_loop srv req retries (i + 1) tr2)
      else (Resolved_undefined, tr))"
  by pat_completeness auto
termination
  by (relation "measure (\<lambda>(srv, req, retries, i, tr). retries - i)") auto

declare fetch_loop.simps [simp del]

definition fetchWithBackoff :: "'c server \<Rightarrow> 'c request \<Rightarrow> 'c fetch_result \<times> 'c trace" where
  "fetchWithBackoff srv req = fetch_loop srv req 5 0 no_traffic"

text \<open>An endpoint that answers every request with the same status and no body.\<close>

definition always_status :: "nat \<Rightarrow> 'c server" where
  "always_status c req n = Fetch_response \<lparr>status = c, json = None\<rparr>"


section \<open>The application script: append-only evidence\<close>

subsection \<open>Records and object stores\<close>

text \<open>
  A JavaScript object of a collection is its \<open>id\<close> property (\<open>None\<close> when the
  property is absent) together with its other fields.  Numbers are integers.
\<close>

type_synonym 'a item = "nat option \<times> 'a"

record worker =
  name :: string
  dni :: string
  totalAssists :: "int option"
  lastAssistance :: "string option"

record event =
  userId :: nat
  date :: string
  amount :: string
  notes_text :: string
  image_data :: "string option"
  timestamp :: string

record gist_config =
  gistId :: string
  token :: string

type_synonym app_data = "(worker item, event item) snapshot"

text \<open>
  An object store with \<open>keyPath: 'id'\<close> and \<open>autoIncrement: true\<close>: the records by
  key and the key generator.  \<open>rows\<close> keeps the records in the order they were
  stored; reading sorts them by key, as the engine does.  The engine's methods
  \<open>put\<close>, \<open>add\<close>, \<open>clear\<close> and \<open>getAll\<close> are not code of the repository; they are
  modelled after the storage engine's rules: a record stored without a key takes the
  generator's number, storing a key at or above the generator moves the generator
  past it, \<open>clear\<close> leaves the generator alone, \<open>put\<close> replaces the record of its
  key and \<open>add\<close> fails on a key that is present.
\<close>

record 'a ostore =
  keygen :: nat
  rows :: "(nat \<times> 'a) list"

definition key_for :: "'a ostore \<Rightarrow> 'a item \<Rightarrow> nat" where
  "key_for s data = (case fst data of None \<Rightarrow> keygen s | Some k \<Rightarrow> k)"

definition getAll :: "'a ostore \<Rightarrow> 'a item list" where
  "getAll s = map (\<lambda>(k, v). (Some k, v)) (sort_key fst (rows s))"

definition put :: "'a ostore \<Rightarrow> 'a item \<Rightarrow> nat \<times> 'a ostore" where
  "put s data =
     (let k = key_for s data
      in (k, \<lparr>keygen = max (keygen s) (k + 1),
              rows = AList.delete k (rows s) @ [(k, snd data)]\<rparr>))"

definition store_add :: "'a item \<Rightarrow> 'a ostore \<Rightarrow> js_error + 'a ostore" where
  "store_add data s =
     (let k = key_for s data
      in if k \<in> set (map fst (rows s)) then Inl Constraint_error
         else Inr \<lparr>keygen = max (keygen s) (k + 1), rows = rows s @ [(k, snd data)]\<rparr>)"

definition store_clear :: "'a ostore \<Rightarrow> js_error + 'a ostore" where
  "store_clear s = Inr (s\<lparr>rows := []\<rparr>)"

text \<open>
  A read-write transaction of the engine: the store as it was when the transaction
  began, the working copy its requests act on, and \<open>life\<close>, the number of requests
  after which the environment aborts the transaction (\<open>None\<close>: it is never
  aborted from outside).  A request that fails, or that is pending when the
  transaction is aborted, reports an error; the transaction then ends with the
  store as it was.  A transaction with no request left commits its working copy.
\<close>

record 'a txn =
  before :: "'a ostore"
  working :: "'a ostore"
  life :: "nat option"

definition tx_begin :: "nat option \<Rightarrow> 'a ostore \<Rightarrow> 'a txn" where
  "tx_begin l s = \<lparr>before = s, working = s, life = l\<rparr>"

definition tx_request :: "('a ostore \<Rightarrow> js_error + 'a ostore) \<Rightarrow> 'a txn \<Rightarrow> js_error + 'a txn" where
  "tx_request f t =
     (if life t = Some 0 then Inl Abort_error
      else case f (working t) of
             Inl e \<Rightarrow> Inl e
           | Inr w \<Rightarrow> Inr (t\<lparr>working := w, life := map_option (\<lambda>n. n - 1) (life t)\<rparr>))"

definition tx_finish :: "'a txn \<Rightarrow> 'a ostore" where
  "tx_finish t = (if life t = Some 0 then before t else working t)"

subsection \<open>\<open>clearAndBulkAdd\<close>\<close>

datatype store_name = USERS | EVIDENCES | CONFIG

definition falsy_id :: "nat option \<Rightarrow> bool" where
  "falsy_id i = (i = None \<or> i = Some 0)"

text \<open>The \<open>delete item.id\<close> of \<open>addNext\<close>.\<close>

definition strip_id :: "store_name \<Rightarrow> 'a item \<Rightarrow> 'a item" where
  "strip_id storeName data =
     (if storeName = EVIDENCES \<and> falsy_id (fst data) then (None, snd data) else data)"

text \<open>
  \<open>addNext\<close>: one \<open>store.add\<close> per element, the next one issued from the success
  callback of the one before; an error callback rejects the promise.
\<close>

fun addNext :: "store_name \<Rightarrow> 'a txn \<Rightarrow> 'a item list \<Rightarrow> js_error + 'a txn" where
  "addNext storeName t [] = Inr t"
| "addNext storeName t (data # rest) =
     (case tx_request (store_add (strip_id storeName data)) t of
        Inl e \<Rightarrow> Inl e
      | Inr t' \<Rightarrow> addNext storeName t' rest)"

text \<open>
  \<open>clearAndBulkAdd\<close> opens one transaction, clears the store and adds the elements
  in it.  The result is the settlement of the promise and the store the transaction
  leaves behind.  The promise resolves from the last success callback, before the
  transaction commits.
\<close>

definition clearAndBulkAdd_tx ::
  "nat option \<Rightarrow> store_name \<Rightarrow> 'a ostore \<Rightarrow> 'a item list \<Rightarrow> (js_error + unit) \<times> 'a ostore" where
  "clearAndBulkAdd_tx l storeName s dataArray =
     (let t = tx_begin l s
      in case tx_request store_clear t of
           Inl e \<Rightarrow> (Inl e, before t)
         | Inr t1 \<Rightarrow>
             (case addNext storeName t1 dataArray of
                Inl e \<Rightarrow> (Inl e, before t)
              | Inr t2 \<Rightarrow> (Inr (), tx_finish t2)))"



subsection \<open>Application state\<close>

text \<open>
  The stores of the open database and the parts of the page the synchronisation
  code writes.  Every function below runs after \<open>openDB\<close> has resolved: the
  handlers are registered behind \<open>await openDB()\<close>.  The text of the
  \<open>sync-status\<close> element and of the notification are kept as labels.
\<close>

datatype sync_label =
    Sincronizado              \<comment> \<open>\<open>'Sincronizado: ' + time\<close>, green\<close>
  | Error_de_Sincronizacion   \<comment> \<open>red\<close>
  | Error_de_Carga_Remota
  | Modo_Local                \<comment> \<open>\<open>'Modo Local (Sin Gist)'\<close>\<close>

datatype notice =
    Notice_registered         \<comment> \<open>\<open>'Asistencia registrada y sincronizacion iniciada.'\<close>, success\<close>
  | Notice_loaded_from_gist   \<comment> \<open>success\<close>
  | Notice_local_mode         \<comment> \<open>\<open>'Modo Offline/Local: Gist no configurado.'\<close>, error\<close>
  | Notice_save_error         \<comment> \<open>\<open>'Error al guardar la asistencia en el almacenamiento local.'\<close>, error\<close>
  | Notice_load_error js_error  \<comment> \<open>\<open>`Error al cargar datos: ${e.message}. Usando local.`\<close>, error\<close>

record app_state =
  users_store :: "worker ostore"
  evidences_store :: "event ostore"
  config_store :: "gist_config option"
  currentUserId :: "nat option"
  sync_status :: "sync_label option"
  notification :: "notice option"
  team_grid :: "worker item list"

definition INITIAL_USERS :: "worker item list" where
  "INITIAL_USERS =
     [(Some 1, \<lparr>name = ''Ana L'' @ [CHR 0xC3, CHR 0xB3] @ ''pez'', dni = ''12345678A'',
                totalAssists = Some 5, lastAssistance = None\<rparr>),
      (Some 2, \<lparr>name = ''Roberto G'' @ [CHR 0xC3, CHR 0xB3] @ ''mez'', dni = ''87654321B'',
                totalAssists = Some 3, lastAssistance = None\<rparr>),
      (Some 3, \<lparr>name = ''Carla P'' @ [CHR 0xC3, CHR 0xA9] @ ''rez'', dni = ''11223344C'',
                totalAssists = Some 8, lastAssistance = None\<rparr>)]"

definition GIST_API_URL :: string where
  "GIST_API_URL = ''https://api.github.com/gists/''"

definition DATA_FILE :: string where
  "DATA_FILE = ''asistencias_pro_data.json''"

text \<open>The card order of the grid (by \<open>totalAssists\<close>) and its markup are not modelled.\<close>

definition renderTeamGrid :: "worker item list \<Rightarrow> app_state \<Rightarrow> app_state" where
  "renderTeamGrid us st = st\<lparr>team_grid := us\<rparr>"

definition showNotification :: "notice \<Rightarrow> app_state \<Rightarrow> app_state" where
  "showNotification n st = st\<lparr>notification := Some n\<rparr>"

subsection \<open>Remote synchronisation\<close>

text \<open>
  \<open>getGistConfig\<close> awaits the request object that \<open>get\<close> returns.  A request is
  not a promise, so \<open>await\<close> yields the request itself: it is an object, hence
  truthy, and the branch for a missing configuration is not taken.  The function
  returns the \<open>value\<close> property of the request, which a request does not have:
  it resolves \<open>undefined\<close> (\<open>None\<close>), whatever the configuration store holds.  Its
  \<open>catch\<close> block, which returns empty strings, is for a read that throws; with
  the database open the read does not throw.
\<close>

definition getGistConfig :: "app_state \<Rightarrow> gist_config option" where
  "getGistConfig st = None"

definition load_request :: "string \<Rightarrow> string \<Rightarrow> app_data request" where
  "load_request gid tok =
     \<lparr>req_method = GET, url = GIST_API_URL @ gid,
      headers = [(''Accept'', ''application/vnd.github.v3+json''),
                 (''Authorization'', ''token '' @ tok)],
      body = None\<rparr>"

text \<open>
  \<open>loadDataFromGist\<close>.  When \<open>fetchWithBackoff\<close> returns \<open>undefined\<close>,
  \<open>response.json()\<close> is a property read on \<open>undefined\<close>.
\<close>

definition loadDataFromGist ::
  "app_data server \<Rightarrow> string \<Rightarrow> string \<Rightarrow> (js_error + app_data) \<times> app_data trace" where
  "loadDataFromGist srv gid tok =
     (if gid = [] \<or> tok = [] then (Inl Config_required, no_traffic)
      else
        (case fetchWithBackoff srv (load_request gid tok) of
           (Rejected e, tr) \<Rightarrow> (Inl e, tr)
         | (Resolved_undefined, tr) \<Rightarrow> (Inl Type_error, tr)
         | (Resolved r, tr) \<Rightarrow>
             (case json r of
                None \<Rightarrow> (Inl Syntax_error, tr)
              | Some gist_files \<Rightarrow>
                  (case map_of gist_files DATA_FILE of
                     None \<Rightarrow> (Inl File_missing, tr)
                   | Some None \<Rightarrow> (Inl Syntax_error, tr)
                   | Some (Some content) \<Rightarrow> (Inr content, tr)))))"

text \<open>
  The request of \<open>saveDataToGist\<close>; \<open>now\<close> is \<open>new Date().toISOString()\<close>.  The
  description is the source's text without its accent.
\<close>

definition save_request :: "string \<Rightarrow> string \<Rightarrow> string \<Rightarrow> app_state \<Rightarrow> app_data request" where
  "save_request now gid tok st =
     (let dataToSave = \<lparr>users = getAll (users_store st),
                        evidences = getAll (evidences_store st),
                        lastSync = Some now\<rparr>;
          payload = \<lparr>description = ''Datos de Asistencias PRO sincronizados automaticamente.'',
                     files = [(DATA_FILE, dataToSave)]\<rparr>
      in \<lparr>req_method = PATCH, url = GIST_API_URL @ gid,
          headers = [(''Accept'', ''application/vnd.github.v3+json''),
                     (''Authorization'', ''token '' @ tok),
                     (''Content-Type'', ''application/json'')],
          body = Some payload\<rparr>)"

text \<open>
  \<open>saveDataToGist\<close> resolves to \<open>undefined\<close> on every path; what it reports is the
  line it logs: the warning of the skipped synchronisation, the success line, or
  the error it caught.
\<close>

datatype push_log = Push_skipped | Push_saved | Push_error js_error

definition saveDataToGist ::
  "app_data server \<Rightarrow> string \<Rightarrow> string \<Rightarrow> string \<Rightarrow> app_state \<Rightarrow>
     push_log \<times> app_state \<times> app_data trace" where
  "saveDataToGist srv now gid tok st =
     (if gid = [] \<or> tok = [] then (Push_skipped, st, no_traffic)
      else
        (case fetchWithBackoff srv (save_request now gid tok st) of
           (Rejected e, tr) \<Rightarrow> (Push_error e, st\<lparr>sync_status := Some Error_de_Sincronizacion\<rparr>, tr)
         | (_, tr) \<Rightarrow> (Push_saved, st\<lparr>sync_status := Some Sincronizado\<rparr>, tr)))"

text \<open>A freshly created database: empty stores, the key generators at 1.\<close>

definition fresh_state :: app_state where
  "fresh_state =
     \<lparr>users_store = \<lparr>keygen = 1, rows = []\<rparr>,
      evidences_store = \<lparr>keygen = 1, rows = []\<rparr>,
      config_store = None, currentUserId = None, sync_status = None,
      notification = None, team_grid = []\<rparr>"

subsection \<open>Recording an attendance\<close>

text \<open>
  The fields of the attendance form; \<open>imageUpload\<close> is the data URL of the chosen
  file, \<open>None\<close> when no file is chosen.  The amount is kept as its text.
\<close>

record attendance_form =
  attendanceDate :: string
  attendanceAmount :: string
  attendanceNotes :: string
  imageUpload :: "string option"

definition or_zero :: "int option \<Rightarrow> int" where
  "or_zero n = (case n of None \<Rightarrow> 0 | Some v \<Rightarrow> v)"

text \<open>
  A count is a JavaScript number with an integer value.  The sum of two such
  numbers is the exact sum rounded to the nearest double, ties to the even
  significand: exact up to \<open>2 ^ 53\<close> in magnitude, and above that the nearest
  multiple of the spacing \<open>q\<close> of the doubles of that size.
\<close>

fun bit_length :: "nat \<Rightarrow> nat" where
  "bit_length n = (if n = 0 then 0 else Suc (bit_length (n div 2)))"

declare bit_length.simps [simp del]

definition round_to_double :: "int \<Rightarrow> int" where
  "round_to_double x =
     (let a = nat \<bar>x\<bar>
      in if a \<le> 2 ^ 53 then x
         else
           (let q = 2 ^ (bit_length a - 53);
                m = a div q;
                r = a mod q;
                m' = (if 2 * r < q then m
                      else if q < 2 * r then m + 1
                      else if even m then m else m + 1)
            in sgn x * int (m' * q)))"

definition plus_one :: "int \<Rightarrow> int" where
  "plus_one n = round_to_double (n + 1)"

text \<open>
  \<open>handleAttendanceSubmit\<close>.  \<open>now\<close> is the time stamp of the new record and
  \<open>sync_time\<close> the one of a push.  The new record has no \<open>id\<close>, so the store
  generates its key.  \<open>userToUpdate\<close> is an element of \<open>allUsers\<close>, so the grid
  would be rendered from the array with that element changed.  After the two
  writes the handler reads \<open>config.gistId\<close> of what \<open>getGistConfig\<close> resolved:
  on \<open>undefined\<close> that read throws a \<open>TypeError\<close> inside the \<open>try\<close> block, and the
  handler ends in its \<open>catch\<close> block with the error notice, with no push, no
  rendering of the grid and nothing undone.  On a configuration the push is started
  without being awaited; the model runs it to its end before the handler's last
  steps and returns its network trace.  In the model \<open>put\<close> cannot fail; closing
  the modal is not modelled.
\<close>

definition handleAttendanceSubmit ::
  "app_data server \<Rightarrow> string \<Rightarrow> string \<Rightarrow> attendance_form \<Rightarrow> app_state \<Rightarrow>
     app_state \<times> app_data trace" where
  "handleAttendanceSubmit srv now sync_time form st =
     (case currentUserId st of
        None \<Rightarrow> (st, no_traffic)
      | Some uid \<Rightarrow>
          if uid = 0 then (st, no_traffic)
          else
            (let dateValue = attendanceDate form;
                 newEvidence = (None, \<lparr>userId = uid, date = dateValue,
                                       amount = attendanceAmount form,
                                       notes_text = attendanceNotes form,
                                       image_data = imageUpload form, timestamp = now\<rparr>);
                 st1 = st\<lparr>evidences_store := snd (put (evidences_store st) newEvidence)\<rparr>;
                 allUsers = getAll (users_store st1);
                 (allUsers', st2) =
                   (case find (\<lambda>u. fst u = Some uid) allUsers of
                      None \<Rightarrow> (allUsers, st1)
                    | Some userToUpdate \<Rightarrow>
                        (let updated = (fst userToUpdate,
                               (snd userToUpdate)
                                 \<lparr>totalAssists :=
                                    Some (plus_one (or_zero (totalAssists (snd userToUpdate)))),
                                  lastAssistance := Some dateValue\<rparr>)
                         in (map (\<lambda>u. if fst u = Some uid then updated else u) allUsers,
                             st1\<lparr>users_store := snd (put (users_store st1) updated)\<rparr>)))
             in case getGistConfig st2 of
                  None \<Rightarrow> (showNotification Notice_save_error st2, no_traffic)
                | Some config \<Rightarrow>
                    (case saveDataToGist srv sync_time (gistId config) (token config) st2 of
                       (lg, st3, tr) \<Rightarrow>
                         (showNotification Notice_registered (renderTeamGrid allUsers' st3),
                          tr))))"

subsection \<open>Loading on start\<close>



section \<open>The evidence module: composite evidence by worker and day\<close>

text \<open>
  The stores of the evidence module have \<open>keyPath: 'id'\<close> and no key generator:
  a store is the list of its objects, the key of an object is read from the object
  by the key path.  \<open>idbPut\<close> replaces the object of the same key, \<open>idbGetAll\<close>
  reads in key order.  The module's functions run after \<open>openDB\<close> has resolved.
\<close>

definition idbGet :: "('a \<Rightarrow> string) \<Rightarrow> 'a list \<Rightarrow> string \<Rightarrow> 'a option" where
  "idbGet keyPath store k = find (\<lambda>r. keyPath r = k) store"

definition idbPut :: "('a \<Rightarrow> string) \<Rightarrow> 'a list \<Rightarrow> 'a \<Rightarrow> 'a list" where
  "idbPut keyPath store v = filter (\<lambda>r. keyPath r \<noteq> keyPath v) store @ [v]"

definition idbGetAll :: "('a \<Rightarrow> string) \<Rightarrow> 'a list \<Rightarrow> 'a list" where
  "idbGetAll keyPath store = sort_key keyPath store"

text \<open>
  A validation mark is \<open>true\<close> or the recognised text \<open>{raw: text}\<close>; a slot that
  is \<open>null\<close> is \<open>None\<close>.
\<close>

datatype validation = Validated | Ocr_raw string

record evidence =
  ev_id :: string
  ev_userId :: string
  fecha :: string
  entrada :: "string option"
  salida :: "string option"
  validatedEntry :: "validation option"
  validatedExit :: "validation option"
  ev_timestamp :: nat

record index_entry =
  ix_id :: string
  ix_userId :: string
  ix_fecha :: string
  ix_tipo :: string
  createdAt :: nat

text \<open>
  The item \<open>evidencias_index\<close> of \<open>localStorage\<close>: absent, a JSON array of index
  entries, or text that \<open>JSON.parse\<close> rejects.
\<close>

datatype local_item = Item_absent | Item_entries "index_entry list" | Item_unparsable

type_synonym module_user = "string \<times> worker"

record module_state =
  mod_users :: "module_user list"
  mod_evidences :: "evidence list"
  mod_config :: "gist_config option"
  evidencias_index :: local_item

type_synonym module_data = "(module_user, evidence) snapshot"

definition GIST_FILE_NAME :: string where
  "GIST_FILE_NAME = ''gestion_asistencias_pro_full.json''"

definition getLocalIndex :: "module_state \<Rightarrow> js_error + index_entry list" where
  "getLocalIndex s =
     (case evidencias_index s of
        Item_absent \<Rightarrow> Inr []
      | Item_entries xs \<Rightarrow> Inr xs
      | Item_unparsable \<Rightarrow> Inl Syntax_error)"

text \<open>
  \<open>saveEvidenceForUser\<close>.  \<open>now\<close> is the clock when a new record is created and
  \<open>later\<close> the clock when the index entry is made; \<open>ocrResult\<close> is the recognised
  text or \<open>null\<close>.  The record is written before the index is read, so a failure
  of the index leaves the record written.  The toast and the preview are not
  modelled.
\<close>

definition saveEvidenceForUser ::
  "nat \<Rightarrow> nat \<Rightarrow> string \<Rightarrow> string \<Rightarrow> string \<Rightarrow> string \<Rightarrow> string option \<Rightarrow> module_state \<Rightarrow>
     (js_error + evidence) \<times> module_state" where
  "saveEvidenceForUser now later uid dateISO tipo dataUrl ocrResult s =
     (let rid = uid @ ''_'' @ dateISO;
          existing = idbGet ev_id (mod_evidences s) rid;
          record0 = (case existing of
                       Some r \<Rightarrow> r
                     | None \<Rightarrow> \<lparr>ev_id = rid, ev_userId = uid, fecha = dateISO,
                                entrada = None, salida = None,
                                validatedEntry = None, validatedExit = None,
                                ev_timestamp = now\<rparr>);
          mark = (case ocrResult of None \<Rightarrow> Validated | Some raw \<Rightarrow> Ocr_raw raw);
          record1 = (if tipo = ''entrada''
                     then record0\<lparr>entrada := Some dataUrl, validatedEntry := Some mark\<rparr>
                     else record0\<lparr>salida := Some dataUrl, validatedExit := Some mark\<rparr>);
          s1 = s\<lparr>mod_evidences := idbPut ev_id (mod_evidences s) record1\<rparr>
      in case getLocalIndex s1 of
           Inl e \<Rightarrow> (Inl e, s1)
         | Inr indexList \<Rightarrow>
             (Inr record1,
              s1\<lparr>evidencias_index :=
                   Item_entries (indexList @ [\<lparr>ix_id = rid, ix_userId = uid, ix_fecha = dateISO,
                                              ix_tipo = tipo, createdAt = later\<rparr>])\<rparr>))"

definition module_getGistConfig :: "module_state \<Rightarrow> gist_config" where
  "module_getGistConfig s =
     (case mod_config s of
        None \<Rightarrow> \<lparr>gistId = [], token = []\<rparr>
      | Some cfg \<Rightarrow> cfg)"

definition sync_request :: "string \<Rightarrow> gist_config \<Rightarrow> module_state \<Rightarrow> module_data request" where
  "sync_request now cfg s =
     (let payload =
            \<lparr>description = ''Backup Asistencias PRO - '' @ now,
             files = [(GIST_FILE_NAME,
                       \<lparr>users = idbGetAll fst (mod_users s),
                        evidences = idbGetAll ev_id (mod_evidences s),
                        lastSync = None\<rparr>)]\<rparr>
      in \<lparr>req_method = PATCH, url = ''https://api.github.com/gists/'' @ gistId cfg,
          headers = [(''Authorization'', ''token '' @ token cfg),
                     (''Content-Type'', ''application/json'')],
          body = Some payload\<rparr>)"

text \<open>
  \<open>syncToGist\<close> sends one request, without retry.  It returns \<open>undefined\<close> when the
  Gist is not configured, \<open>true\<close> on success and \<open>false\<close> when it caught an error.
\<close>

definition syncToGist ::
  "module_data server \<Rightarrow> string \<Rightarrow> module_state \<Rightarrow> bool option \<times> module_data trace" where
  "syncToGist srv now s =
     (let cfg = module_getGistConfig s
      in if gistId cfg = [] \<or> token cfg = [] then (None, no_traffic)
         else
           (let req = sync_request now cfg s;
                tr = \<lparr>requests = [req], delays = []\<rparr>
            in case srv req 0 of
                 Fetch_failed \<Rightarrow> (Some False, tr)
               | Fetch_response res \<Rightarrow> if ok res then (Some True, tr) else (Some False, tr)))"

subsection \<open>An example run of the evidence module\<close>

text \<open>
  Worker W1 with five attendances and no evidence yet; then the state after a
  check-in image is saved for 2024-01-10, and after a second check-in image is
  saved for the same day.
\<close>

definition w1_state :: module_state where
  "w1_state =
     \<lparr>mod_users = [(''W1'', \<lparr>name = ''Worker One'', dni = ''00000001A'',
                              totalAssists = Some 5, lastAssistance = None\<rparr>)],
      mod_evidences = [], mod_config = None, evidencias_index = Item_absent\<rparr>"

definition w1_record :: "string \<Rightarrow> evidence" where
  "w1_record img =
     \<lparr>ev_id = ''W1_2024-01-10'', ev_userId = ''W1'', fecha = ''2024-01-10'',
      entrada = Some img, salida = None,
      validatedEntry = Some Validated, validatedExit = None, ev_timestamp = 10\<rparr>"

definition w1_entry :: "nat \<Rightarrow> index_entry" where
  "w1_entry t =
     \<lparr>ix_id = ''W1_2024-01-10'', ix_userId = ''W1'', ix_fecha = ''2024-01-10'',
      ix_tipo = ''entrada'', createdAt = t\<rparr>"

definition w1_once :: module_state where
  "w1_once = w1_state\<lparr>mod_evidences := [w1_record ''img1''],
                       evidencias_index := Item_entries [w1_entry 11]\<rparr>"

definition w1_twice :: module_state where
  "w1_twice = w1_state\<lparr>mod_evidences := [w1_record ''img2''],
                        evidencias_index := Item_entries [w1_entry 11, w1_entry 21]\<rparr>"

subsection \<open>An example state of the application script\<close>

text \<open>
  One worker with five attendances, selected in the grid, and a filled form for
  2024-01-10.
\<close>

definition ana :: worker where
  "ana = \<lparr>name = ''Ana'', dni = ''12345678A'', totalAssists = Some 5, lastAssistance = None\<rparr>"

definition ana_selected :: app_state where
  "ana_selected = fresh_state\<lparr>users_store := \<lparr>keygen = 2, rows = [(1, ana)]\<rparr>,
                              currentUserId := Some 1\<rparr>"

definition form_jan10 :: attendance_form where
  "form_jan10 = \<lparr>attendanceDate = ''2024-01-10'', attendanceAmount = ''25.50'',
                 attendanceNotes = [], imageUpload = None\<rparr>"

definition event_jan10 :: event where
  "event_jan10 = \<lparr>userId = 1, date = ''2024-01-10'', amount = ''25.50'', notes_text = [],
                  image_data = None, timestamp = ''2024-01-10T08:00:00.000Z''\<rparr>"

section \<open>Verified properties\<close>

text \<open>
  C1.  The claim: a request answered with status 404 fails after exactly one network
  attempt, with no retry and no delay.  The code does otherwise: the error thrown
  for the 404 is caught by the \<open>catch\<close> of the same iteration, which rethrows only
  on the last of the five iterations.  Against an endpoint that answers every
  request with 404, \<open>fetchWithBackoff\<close> sends five requests and sleeps 1, 2, 4 and
  8 seconds between them before it rejects; so do the pull and the push built on it.
\<close>

theorem fetchWithBackoff_404_retried:
  "fetchWithBackoff (always_status 404) req =
     (Rejected Gist_not_found,
      \<lparr>requests = [req, req, req, req, req], delays = [1000, 2000, 4000, 8000]\<rparr>)
   \<and> loadDataFromGist (always_status 404) ''g1'' ''t1'' =
     (Inl Gist_not_found,
      \<lparr>requests = [load_request ''g1'' ''t1'', load_request ''g1'' ''t1'',
                   load_request ''g1'' ''t1'', load_request ''g1'' ''t1'',
                   load_request ''g1'' ''t1''],
       delays = [1000, 2000, 4000, 8000]\<rparr>)"
  by (simp add: loadDataFromGist_def fetchWithBackoff_def fetch_loop.simps always_status_def
        ok_def no_traffic_def)

text \<open>
  C2.  The claim: against an endpoint that answers every request with status 500, a
  push makes exactly five attempts with delays of 1, 2, 4, 8 and 16 seconds, then
  fails and informs the caller of the failure.  The attempts and the delays are as
  claimed, but after the fifth delay the loop of \<open>fetchWithBackoff\<close> ends and the
  function returns \<open>undefined\<close> without throwing: \<open>saveDataToGist\<close> takes its
  success path, logs that the data were saved and sets the status to synchronised.
\<close>

theorem saveDataToGist_500_reports_success:
  "fetchWithBackoff (always_status 500) req =
     (Resolved_undefined,
      \<lparr>requests = [req, req, req, req, req], delays = [1000, 2000, 4000, 8000, 16000]\<rparr>)
   \<and> saveDataToGist (always_status 500) now ''g1'' ''t1'' fresh_state =
     (Push_saved, fresh_state\<lparr>sync_status := Some Sincronizado\<rparr>,
      \<lparr>requests = [save_request now ''g1'' ''t1'' fresh_state,
                   save_request now ''g1'' ''t1'' fresh_state,
                   save_request now ''g1'' ''t1'' fresh_state,
                   save_request now ''g1'' ''t1'' fresh_state,
                   save_request now ''g1'' ''t1'' fresh_state],
       delays = [1000, 2000, 4000, 8000, 16000]\<rparr>)"
  by (simp add: saveDataToGist_def fetchWithBackoff_def fetch_loop.simps always_status_def
        ok_def no_traffic_def)

subsection \<open>Evidence records of the evidence module\<close>

lemma find_as_filter:
  "find P xs = (case filter P xs of [] \<Rightarrow> None | x # ys \<Rightarrow> Some x)"
  by (induction xs) auto

lemma idbPut_same_key:
  "filter (\<lambda>r. keyPath r = keyPath v) (idbPut keyPath store v) = [v]"
  by (induction store) (auto simp: idbPut_def)

lemma idbPut_other_keys:
  "filter (\<lambda>r. keyPath r \<noteq> keyPath v) (idbPut keyPath store v) =
   filter (\<lambda>r. keyPath r \<noteq> keyPath v) store"
  by (induction store) (auto simp: idbPut_def)

lemma idbGet_idbPut_same:
  "idbGet keyPath (idbPut keyPath store v) (keyPath v) = Some v"
  by (simp add: idbGet_def find_as_filter idbPut_same_key)

lemma idbGet_idbPut_other:
  "k \<noteq> keyPath v \<Longrightarrow> idbGet keyPath (idbPut keyPath store v) k = idbGet keyPath store k"
  by (induction store) (auto simp: idbGet_def idbPut_def)

lemma idbGet_key: "idbGet keyPath store k = Some r \<Longrightarrow> keyPath r = k"
  by (induction store) (auto simp: idbGet_def split: if_splits)

lemma idbPut_length_present:
  "length (filter (\<lambda>r. keyPath r = keyPath v) store) = 1 \<Longrightarrow>
   length (idbPut keyPath store v) = length store"
proof -
  assume a: "length (filter (\<lambda>r. keyPath r = keyPath v) store) = 1"
  have "length store = length (filter (\<lambda>r. keyPath r = keyPath v) store)
        + length (filter (\<lambda>r. \<not> keyPath r = keyPath v) store)"
    by (rule sum_length_filter_compl [symmetric])
  with a show ?thesis by (simp add: idbPut_def)
qed

text \<open>What one call of \<open>saveEvidenceForUser\<close> does to the state.\<close>

lemma saveEvidenceForUser_effect:
  assumes "saveEvidenceForUser now later uid d tipo img ocr s = (res, s')"
      and "k = uid @ ''_'' @ d"
  shows "\<exists>r0 r. r0 = (case idbGet ev_id (mod_evidences s) k of
                    Some x \<Rightarrow> x
                  | None \<Rightarrow> \<lparr>ev_id = k, ev_userId = uid, fecha = d,
                             entrada = None, salida = None,
                             validatedEntry = None, validatedExit = None,
                             ev_timestamp = now\<rparr>)
     \<and> r = (if tipo = ''entrada''
            then r0\<lparr>entrada := Some img,
                    validatedEntry := Some (case ocr of None \<Rightarrow> Validated | Some raw \<Rightarrow> Ocr_raw raw)\<rparr>
            else r0\<lparr>salida := Some img,
                    validatedExit := Some (case ocr of None \<Rightarrow> Validated | Some raw \<Rightarrow> Ocr_raw raw)\<rparr>)
     \<and> ev_id r = k
     \<and> mod_evidences s' = idbPut ev_id (mod_evidences s) r
     \<and> mod_users s' = mod_users s \<and> mod_config s' = mod_config s
     \<and> (case getLocalIndex s of
           Inl e \<Rightarrow> res = Inl e \<and> evidencias_index s' = evidencias_index s
         | Inr old \<Rightarrow> res = Inr r \<and>
             evidencias_index s' =
               Item_entries (old @ [\<lparr>ix_id = k, ix_userId = uid, ix_fecha = d,
                                     ix_tipo = tipo, createdAt = later\<rparr>]))"
proof -
  have key: "\<And>x. idbGet ev_id (mod_evidences s) k = Some x \<Longrightarrow> ev_id x = k"
    by (rule idbGet_key)
  show ?thesis
    using assms key
    by (auto simp: saveEvidenceForUser_def Let_def getLocalIndex_def
             split: option.splits local_item.splits sum.splits if_splits)
qed


lemma w1_first_save:
  "saveEvidenceForUser 10 11 ''W1'' ''2024-01-10'' ''entrada'' ''img1'' None w1_state =
     (Inr (w1_record ''img1''), w1_once)"
  by (simp add: saveEvidenceForUser_def w1_state_def w1_once_def w1_record_def w1_entry_def
        idbGet_def idbPut_def getLocalIndex_def Let_def)

lemma w1_second_save:
  "saveEvidenceForUser 20 21 ''W1'' ''2024-01-10'' ''entrada'' ''img2'' None w1_once =
     (Inr (w1_record ''img2''), w1_twice)"
  by (simp add: saveEvidenceForUser_def w1_state_def w1_once_def w1_twice_def w1_record_def
        w1_entry_def idbGet_def idbPut_def getLocalIndex_def Let_def)

text \<open>
  C4.  Two successful calls of \<open>saveEvidenceForUser\<close> with the same worker, date and
  event kind and two images leave exactly one evidence record under the key
  \<open>workerId_date\<close>; that record is the one the second call returned, its slot for
  the event kind holds the second image, and the second call did not lengthen the
  store.
\<close>

theorem saveEvidenceForUser_twice_one_record:
  assumes first: "saveEvidenceForUser now1 later1 uid d tipo img1 ocr1 s = (Inr r1, s1)"
      and second: "saveEvidenceForUser now2 later2 uid d tipo img2 ocr2 s1 = (Inr r2, s2)"
  shows "length (filter (\<lambda>r. ev_id r = uid @ ''_'' @ d) (idbGetAll ev_id (mod_evidences s2))) = 1
       \<and> idbGet ev_id (mod_evidences s2) (uid @ ''_'' @ d) = Some r2
       \<and> (if tipo = ''entrada'' then entrada r2 else salida r2) = Some img2
       \<and> length (mod_evidences s2) = length (mod_evidences s1)"
proof -
  define k where "k = uid @ ''_'' @ d"
  from saveEvidenceForUser_effect [OF first k_def] obtain q1 where
    q1: "ev_id q1 = k" "mod_evidences s1 = idbPut ev_id (mod_evidences s) q1"
    by blast
  from saveEvidenceForUser_effect [OF second k_def] obtain p0 q2 where
    q2: "ev_id q2 = k" "mod_evidences s2 = idbPut ev_id (mod_evidences s1) q2"
    and slot: "q2 = (if tipo = ''entrada''
            then p0\<lparr>entrada := Some img2,
                    validatedEntry := Some (case ocr2 of None \<Rightarrow> Validated | Some raw \<Rightarrow> Ocr_raw raw)\<rparr>
            else p0\<lparr>salida := Some img2,
                    validatedExit := Some (case ocr2 of None \<Rightarrow> Validated | Some raw \<Rightarrow> Ocr_raw raw)\<rparr>)"
    and res: "case getLocalIndex s1 of
           Inl e \<Rightarrow> Inr r2 = (Inl e :: js_error + evidence) \<and> evidencias_index s2 = evidencias_index s1
         | Inr old \<Rightarrow> Inr r2 = (Inr q2 :: js_error + evidence) \<and>
             evidencias_index s2 =
               Item_entries (old @ [\<lparr>ix_id = k, ix_userId = uid, ix_fecha = d,
                                     ix_tipo = tipo, createdAt = later2\<rparr>])"
    by blast
  from res have r2: "r2 = q2" by (auto split: sum.splits)
  have one1: "filter (\<lambda>r. ev_id r = k) (mod_evidences s1) = [q1]"
    using idbPut_same_key [of ev_id q1 "mod_evidences s"] q1 by simp
  have one2: "filter (\<lambda>r. ev_id r = k) (mod_evidences s2) = [q2]"
    using idbPut_same_key [of ev_id q2 "mod_evidences s1"] q2 by simp
  have a: "length (filter (\<lambda>r. ev_id r = k) (idbGetAll ev_id (mod_evidences s2))) = 1"
    by (simp add: idbGetAll_def filter_sort one2)
  have b: "idbGet ev_id (mod_evidences s2) k = Some r2"
    using idbGet_idbPut_same [of ev_id "mod_evidences s1" q2] q2 r2 by simp
  have c: "(if tipo = ''entrada'' then entrada r2 else salida r2) = Some img2"
    using slot r2 by simp
  have d: "length (mod_evidences s2) = length (mod_evidences s1)"
    using idbPut_length_present [of ev_id q2 "mod_evidences s1"] one1 q2 by simp
  from a b c d show ?thesis unfolding k_def by blast
qed

theorem saveEvidenceForUser_twice_one_record_witness:
  "saveEvidenceForUser 10 11 ''W1'' ''2024-01-10'' ''entrada'' ''img1'' None w1_state =
     (Inr (w1_record ''img1''), w1_once)
   \<and> saveEvidenceForUser 20 21 ''W1'' ''2024-01-10'' ''entrada'' ''img2'' None w1_once =
     (Inr (w1_record ''img2''), w1_twice)
   \<and> length (filter (\<lambda>r. ev_id r = ''W1'' @ ''_'' @ ''2024-01-10'')
        (idbGetAll ev_id (mod_evidences w1_twice))) = 1
   \<and> idbGet ev_id (mod_evidences w1_twice) (''W1'' @ ''_'' @ ''2024-01-10'') =
        Some (w1_record ''img2'')
   \<and> (if ''entrada'' = ''entrada'' then entrada (w1_record ''img2'')
       else salida (w1_record ''img2'')) = Some ''img2''
   \<and> length (mod_evidences w1_twice) = length (mod_evidences w1_once)"
  using saveEvidenceForUser_twice_one_record [OF w1_first_save w1_second_save]
    w1_first_save w1_second_save
  by blast

text \<open>
  C9.  When a composite record exists for the worker and the date, saving a check-in
  image leaves its check-out fields and its creation time stamp as they were, and
  saving a check-out image leaves its check-in fields and its time stamp as they
  were; the records under every other key are the same as before.
\<close>

theorem saveEvidenceForUser_frame:
  assumes old: "idbGet ev_id (mod_evidences s) (uid @ ''_'' @ d) = Some old"
      and save: "saveEvidenceForUser now later uid d tipo img ocr s = (res, s')"
  shows "\<exists>r. idbGet ev_id (mod_evidences s') (uid @ ''_'' @ d) = Some r
           \<and> (tipo = ''entrada'' \<longrightarrow> salida r = salida old \<and> validatedExit r = validatedExit old)
           \<and> (tipo = ''salida'' \<longrightarrow> entrada r = entrada old \<and> validatedEntry r = validatedEntry old)
           \<and> ev_timestamp r = ev_timestamp old
           \<and> filter (\<lambda>x. ev_id x \<noteq> uid @ ''_'' @ d) (mod_evidences s') =
              filter (\<lambda>x. ev_id x \<noteq> uid @ ''_'' @ d) (mod_evidences s)
           \<and> (\<forall>k. k \<noteq> uid @ ''_'' @ d \<longrightarrow>
                 idbGet ev_id (mod_evidences s') k = idbGet ev_id (mod_evidences s) k)"
proof -
  define k where "k = uid @ ''_'' @ d"
  have old': "idbGet ev_id (mod_evidences s) k = Some old"
    using old unfolding k_def .
  from saveEvidenceForUser_effect [OF save k_def] old' obtain q where
    q: "ev_id q = k" "mod_evidences s' = idbPut ev_id (mod_evidences s) q"
    and slot: "q = (if tipo = ''entrada''
            then old\<lparr>entrada := Some img,
                    validatedEntry := Some (case ocr of None \<Rightarrow> Validated | Some raw \<Rightarrow> Ocr_raw raw)\<rparr>
            else old\<lparr>salida := Some img,
                    validatedExit := Some (case ocr of None \<Rightarrow> Validated | Some raw \<Rightarrow> Ocr_raw raw)\<rparr>)"
    by auto
  have a: "idbGet ev_id (mod_evidences s') k = Some q"
    using idbGet_idbPut_same [of ev_id "mod_evidences s" q] q by simp
  have b: "filter (\<lambda>x. ev_id x \<noteq> k) (mod_evidences s') =
           filter (\<lambda>x. ev_id x \<noteq> k) (mod_evidences s)"
    using idbPut_other_keys [of ev_id q "mod_evidences s"] q by simp
  have c: "\<forall>k'. k' \<noteq> k \<longrightarrow>
             idbGet ev_id (mod_evidences s') k' = idbGet ev_id (mod_evidences s) k'"
    using idbGet_idbPut_other [of _ ev_id q "mod_evidences s"] q by simp
  have e: "(tipo = ''entrada'' \<longrightarrow> salida q = salida old \<and> validatedExit q = validatedExit old)
         \<and> (tipo = ''salida'' \<longrightarrow> entrada q = entrada old \<and> validatedEntry q = validatedEntry old)
         \<and> ev_timestamp q = ev_timestamp old"
    using slot by simp
  from a b c e show ?thesis unfolding k_def by blast
qed

theorem saveEvidenceForUser_frame_witness:
  "idbGet ev_id (mod_evidences w1_once) (''W1'' @ ''_'' @ ''2024-01-10'') =
     Some (w1_record ''img1'')
   \<and> (\<exists>r. idbGet ev_id
             (mod_evidences
               (snd (saveEvidenceForUser 30 31 ''W1'' ''2024-01-10'' ''salida'' ''img3'' None
                       w1_once)))
             (''W1'' @ ''_'' @ ''2024-01-10'') = Some r
          \<and> entrada r = Some ''img1'' \<and> validatedEntry r = Some Validated
          \<and> ev_timestamp r = 10)"
proof -
  have h: "idbGet ev_id (mod_evidences w1_once) (''W1'' @ ''_'' @ ''2024-01-10'') =
             Some (w1_record ''img1'')"
    by (simp add: w1_once_def w1_state_def w1_record_def idbGet_def)
  have s: "saveEvidenceForUser 30 31 ''W1'' ''2024-01-10'' ''salida'' ''img3'' None w1_once =
             (fst (saveEvidenceForUser 30 31 ''W1'' ''2024-01-10'' ''salida'' ''img3'' None w1_once),
              snd (saveEvidenceForUser 30 31 ''W1'' ''2024-01-10'' ''salida'' ''img3'' None w1_once))"
    by simp
  from saveEvidenceForUser_frame [OF h s] h show ?thesis
    by (auto simp: w1_record_def)
qed

text \<open>
  C10.  Every call of \<open>saveEvidenceForUser\<close> on a readable index succeeds, and every
  successful call appends exactly one entry to the index read by \<open>getLocalIndex\<close>,
  also when it updates a record that exists: after two successful calls for the
  same worker and date the index ends with two entries of the same id while the
  store holds one record of that id.
\<close>

theorem saveEvidenceForUser_index_grows:
  "(saveEvidenceForUser now later uid d tipo img ocr s = (Inr r, s') \<longrightarrow>
      (\<exists>old. getLocalIndex s = Inr old \<and>
         getLocalIndex s' =
           Inr (old @ [\<lparr>ix_id = uid @ ''_'' @ d, ix_userId = uid, ix_fecha = d,
                        ix_tipo = tipo, createdAt = later\<rparr>])))
   \<and> (saveEvidenceForUser now1 later1 uid d tipo1 img1 ocr1 s = (Inr r1, s1) \<and>
      saveEvidenceForUser now2 later2 uid d tipo2 img2 ocr2 s1 = (Inr r2, s2) \<longrightarrow>
      (\<exists>old e1 e2. getLocalIndex s = Inr old \<and> getLocalIndex s2 = Inr (old @ [e1, e2])
         \<and> ix_id e1 = uid @ ''_'' @ d \<and> ix_id e2 = uid @ ''_'' @ d
         \<and> length (filter (\<lambda>x. ev_id x = uid @ ''_'' @ d) (mod_evidences s2)) = 1))
   \<and> (getLocalIndex s = Inr entries \<longrightarrow>
        (\<exists>q t. saveEvidenceForUser now later uid d tipo img ocr s = (Inr q, t)))"
proof -
  have three: "\<exists>q t. saveEvidenceForUser now later uid d tipo img ocr s = (Inr q, t)"
    if "getLocalIndex s = Inr entries"
    using that
    by (auto simp: saveEvidenceForUser_def Let_def getLocalIndex_def split: local_item.splits)
  define k where "k = uid @ ''_'' @ d"
  have one: "\<exists>old. getLocalIndex s = Inr old \<and>
         getLocalIndex s' =
           Inr (old @ [\<lparr>ix_id = k, ix_userId = uid, ix_fecha = d,
                        ix_tipo = tipo, createdAt = later\<rparr>])"
    if "saveEvidenceForUser now later uid d tipo img ocr s = (Inr r, s')"
    for now later tipo img ocr s r s'
    using saveEvidenceForUser_effect [OF that k_def]
    by (cases "getLocalIndex s") (auto simp: getLocalIndex_def)
  have two: "\<exists>old e1 e2. getLocalIndex s = Inr old \<and> getLocalIndex s2 = Inr (old @ [e1, e2])
         \<and> ix_id e1 = k \<and> ix_id e2 = k
         \<and> length (filter (\<lambda>x. ev_id x = k) (mod_evidences s2)) = 1"
    if f: "saveEvidenceForUser now1 later1 uid d tipo1 img1 ocr1 s = (Inr r1, s1)"
      and g: "saveEvidenceForUser now2 later2 uid d tipo2 img2 ocr2 s1 = (Inr r2, s2)"
  proof -
    from one [OF f] obtain old where
      o1: "getLocalIndex s = Inr old"
          "getLocalIndex s1 = Inr (old @ [\<lparr>ix_id = k, ix_userId = uid, ix_fecha = d,
                        ix_tipo = tipo1, createdAt = later1\<rparr>])"
      by blast
    from one [OF g] o1 have
      o2: "getLocalIndex s2 = Inr (old @ [\<lparr>ix_id = k, ix_userId = uid, ix_fecha = d,
                        ix_tipo = tipo1, createdAt = later1\<rparr>,
                        \<lparr>ix_id = k, ix_userId = uid, ix_fecha = d,
                        ix_tipo = tipo2, createdAt = later2\<rparr>])"
      by auto
    from saveEvidenceForUser_effect [OF g k_def] obtain q2 where
      q2: "ev_id q2 = k" "mod_evidences s2 = idbPut ev_id (mod_evidences s1) q2"
      by blast
    have "filter (\<lambda>r. ev_id r = k) (mod_evidences s2) = [q2]"
      using idbPut_same_key [of ev_id q2 "mod_evidences s1"] q2 by simp
    with o1 o2 show ?thesis by force
  qed
  from one two three show ?thesis unfolding k_def by blast
qed

theorem saveEvidenceForUser_index_grows_witness:
  "getLocalIndex w1_state = Inr []
   \<and> saveEvidenceForUser 10 11 ''W1'' ''2024-01-10'' ''entrada'' ''img1'' None w1_state =
       (Inr (w1_record ''img1''), w1_once)
   \<and> getLocalIndex w1_once = Inr [w1_entry 11]
   \<and> saveEvidenceForUser 20 21 ''W1'' ''2024-01-10'' ''entrada'' ''img2'' None w1_once =
       (Inr (w1_record ''img2''), w1_twice)
   \<and> getLocalIndex w1_twice = Inr [w1_entry 11, w1_entry 21]
   \<and> ix_id (w1_entry 11) = ''W1'' @ ''_'' @ ''2024-01-10''
   \<and> ix_id (w1_entry 21) = ''W1'' @ ''_'' @ ''2024-01-10''
   \<and> length (filter (\<lambda>x. ev_id x = ''W1'' @ ''_'' @ ''2024-01-10'') (mod_evidences w1_twice)) = 1"
proof -
  have a: "getLocalIndex w1_state = Inr []"
    by (simp add: getLocalIndex_def w1_state_def)
  from saveEvidenceForUser_index_grows
         [of 10 11 "''W1''" "''2024-01-10''" "''entrada''" "''img1''" None w1_state
             "w1_record ''img1''" w1_once
             10 11 "''entrada''" "''img1''" None "w1_record ''img1''" w1_once
             20 21 "''entrada''" "''img2''" None "w1_record ''img2''" w1_twice "[]"]
       w1_first_save w1_second_save a
  show ?thesis
    by (auto simp: w1_entry_def getLocalIndex_def w1_once_def w1_twice_def w1_state_def)
qed

subsection \<open>Worker counts\<close>

lemma saveDataToGist_stores:
  assumes "saveDataToGist srv t gid tok st = (lg, st', tr)"
  shows "users_store st' = users_store st \<and> evidences_store st' = evidences_store st
       \<and> config_store st' = config_store st \<and> currentUserId st' = currentUserId st"
  using assms
  by (auto simp: saveDataToGist_def split: if_splits prod.splits fetch_result.splits)

lemma delete_then_same:
  "filter (\<lambda>x. fst x = k) (AList.delete k xs) = []"
  by (induction xs) (auto simp: AList.delete_eq)

lemma delete_then_others:
  "filter (\<lambda>x. fst x \<noteq> k) (AList.delete k xs) = filter (\<lambda>x. fst x \<noteq> k) xs"
  by (induction xs) (auto simp: AList.delete_eq)

lemma delete_absent: "k \<notin> set (map fst xs) \<Longrightarrow> AList.delete k xs = xs"
  by (induction xs) (auto simp: AList.delete_eq)

lemma find_getAll_put:
  "find (\<lambda>u. fst u = Some k) (getAll (snd (put s (Some k, v)))) = Some (Some k, v)"
proof -
  have "filter (\<lambda>u. fst u = Some k) (getAll (snd (put s (Some k, v)))) = [(Some k, v)]"
    by (simp add: getAll_def put_def key_for_def filter_map comp_def case_prod_unfold
          filter_sort delete_then_same Let_def)
  then show ?thesis by (simp add: find_as_filter)
qed

lemma others_getAll_put:
  "filter (\<lambda>u. fst u \<noteq> Some k) (getAll (snd (put s (Some k, v)))) =
   filter (\<lambda>u. fst u \<noteq> Some k) (getAll s)"
  by (simp add: getAll_def put_def key_for_def filter_map comp_def case_prod_unfold
        filter_sort delete_then_others Let_def)

lemma put_fresh_rows:
  "keygen s \<notin> set (map fst (rows s)) \<Longrightarrow>
   rows (snd (put s (None, v))) = rows s @ [(keygen s, v)]"
  by (simp add: put_def key_for_def delete_absent Let_def)

lemma count_getAll:
  "length (filter (\<lambda>e. P (snd e)) (getAll s)) = length (filter (\<lambda>e. P (snd e)) (rows s))"
  by (simp add: getAll_def filter_map comp_def case_prod_unfold filter_sort)

lemma find_getAll_Some:
  "find (\<lambda>u. fst u = Some k) (getAll s) = Some u \<Longrightarrow> fst u = Some k"
  by (auto simp: find_Some_iff)


text \<open>
  C5.  The claim: after every successful local attendance write the worker's count
  has been incremented and the last-attendance date is the date of the event, for
  example from 5 to 6 after one evidence record is saved.  \<open>saveEvidenceForUser\<close>,
  the write of the composite shape, does not touch the workers collection: after
  the check-in of 2024-01-10 is saved for W1 the count of W1 is still 5 and the
  last-attendance date is still \<open>null\<close>.
\<close>

theorem saveEvidenceForUser_keeps_worker_count:
  "saveEvidenceForUser 10 11 ''W1'' ''2024-01-10'' ''entrada'' ''img1'' None w1_state =
     (Inr (w1_record ''img1''), w1_once)
   \<and> map fst (mod_users w1_once) = [''W1'']
   \<and> map (totalAssists \<circ> snd) (mod_users w1_once) = [Some 5]
   \<and> map (totalAssists \<circ> snd) (mod_users w1_once) \<noteq> [Some 6]
   \<and> map (lastAssistance \<circ> snd) (mod_users w1_once) = [None]
   \<and> map (lastAssistance \<circ> snd) (mod_users w1_once) \<noteq> [Some ''2024-01-10'']"
  using w1_first_save by (simp add: w1_once_def w1_state_def)

lemma plus_one_exact: "\<bar>n\<bar> < 2 ^ 53 \<Longrightarrow> plus_one n = n + 1"
proof -
  assume "\<bar>n\<bar> < 2 ^ 53"
  then have "nat \<bar>n + 1\<bar> \<le> 2 ^ 53" by simp
  then show ?thesis by (simp add: plus_one_def round_to_double_def Let_def)
qed

text \<open>
  C5 as amended.  \<open>handleAttendanceSubmit\<close>, the write of the append-only shape,
  for a selected worker who is in the workers store: the worker's count becomes the
  JavaScript sum of the count and 1 (an absent count counting as 0), which is one
  more than the count when the count is below \<open>2 ^ 53\<close> in magnitude, and the
  last-attendance date becomes the date of the form; the other workers are as
  before; exactly one evidence record, of that worker, is appended under the next
  generated key.  \<open>saveEvidenceForUser\<close> leaves the workers collection, the
  configuration and the evidence records of all other keys as they were.
\<close>

theorem handleAttendanceSubmit_counts:
  assumes sel: "currentUserId st = Some uid" "uid \<noteq> 0"
      and present: "find (\<lambda>u. fst u = Some uid) (getAll (users_store st)) = Some (Some uid, w)"
      and fresh: "keygen (evidences_store st) \<notin> set (map fst (rows (evidences_store st)))"
      and run: "handleAttendanceSubmit srv now sync_time form st = (st', tr)"
  shows "find (\<lambda>u. fst u = Some uid) (getAll (users_store st')) =
           Some (Some uid, w\<lparr>totalAssists := Some (plus_one (or_zero (totalAssists w))),
                              lastAssistance := Some (attendanceDate form)\<rparr>)
       \<and> (\<bar>or_zero (totalAssists w)\<bar> < 2 ^ 53 \<longrightarrow>
            plus_one (or_zero (totalAssists w)) = or_zero (totalAssists w) + 1)
       \<and> filter (\<lambda>u. fst u \<noteq> Some uid) (getAll (users_store st')) =
         filter (\<lambda>u. fst u \<noteq> Some uid) (getAll (users_store st))
       \<and> rows (evidences_store st') =
         rows (evidences_store st) @
           [(keygen (evidences_store st),
             \<lparr>userId = uid, date = attendanceDate form, amount = attendanceAmount form,
              notes_text = attendanceNotes form, image_data = imageUpload form,
              timestamp = now\<rparr>)]
       \<and> length (filter (\<lambda>e. userId (snd e) = uid) (getAll (evidences_store st'))) =
         Suc (length (filter (\<lambda>e. userId (snd e) = uid) (getAll (evidences_store st))))
       \<and> mod_users (snd (saveEvidenceForUser t1 t2 u d tipo img ocr s)) = mod_users s
       \<and> mod_config (snd (saveEvidenceForUser t1 t2 u d tipo img ocr s)) = mod_config s
       \<and> filter (\<lambda>x. ev_id x \<noteq> u @ ''_'' @ d)
           (mod_evidences (snd (saveEvidenceForUser t1 t2 u d tipo img ocr s))) =
         filter (\<lambda>x. ev_id x \<noteq> u @ ''_'' @ d) (mod_evidences s)"
proof -
  define ev where "ev = \<lparr>userId = uid, date = attendanceDate form,
     amount = attendanceAmount form, notes_text = attendanceNotes form,
     image_data = imageUpload form, timestamp = now\<rparr>"
  define w' where "w' = w\<lparr>totalAssists := Some (plus_one (or_zero (totalAssists w))),
                              lastAssistance := Some (attendanceDate form)\<rparr>"
  have "users_store st' = snd (put (users_store st) (Some uid, w'))
      \<and> evidences_store st' = snd (put (evidences_store st) (None, ev))"
    using run sel present
    by (auto simp: handleAttendanceSubmit_def Let_def ev_def w'_def getGistConfig_def
          showNotification_def)
  then have us: "users_store st' = snd (put (users_store st) (Some uid, w'))"
    and es: "evidences_store st' = snd (put (evidences_store st) (None, ev))"
    by simp_all
  have a: "find (\<lambda>u. fst u = Some uid) (getAll (users_store st')) = Some (Some uid, w')"
    unfolding us by (rule find_getAll_put)
  have a': "\<bar>or_zero (totalAssists w)\<bar> < 2 ^ 53 \<longrightarrow>
            plus_one (or_zero (totalAssists w)) = or_zero (totalAssists w) + 1"
    using plus_one_exact by blast
  have b: "filter (\<lambda>u. fst u \<noteq> Some uid) (getAll (users_store st')) =
           filter (\<lambda>u. fst u \<noteq> Some uid) (getAll (users_store st))"
    unfolding us by (rule others_getAll_put)
  have c: "rows (evidences_store st') =
           rows (evidences_store st) @ [(keygen (evidences_store st), ev)]"
    unfolding es by (rule put_fresh_rows [OF fresh])
  have d: "length (filter (\<lambda>e. userId (snd e) = uid) (getAll (evidences_store st'))) =
           Suc (length (filter (\<lambda>e. userId (snd e) = uid) (getAll (evidences_store st))))"
    using count_getAll [of "\<lambda>x. userId x = uid" "evidences_store st'"]
      count_getAll [of "\<lambda>x. userId x = uid" "evidences_store st"]
    by (simp add: c ev_def)
  define k where "k = u @ ''_'' @ d"
  obtain res s' where save: "saveEvidenceForUser t1 t2 u d tipo img ocr s = (res, s')"
    by (metis prod.collapse)
  from saveEvidenceForUser_effect [OF save k_def] obtain q where
    q: "ev_id q = k" "mod_evidences s' = idbPut ev_id (mod_evidences s) q"
    and kept: "mod_users s' = mod_users s" "mod_config s' = mod_config s"
    by blast
  have "filter (\<lambda>x. ev_id x \<noteq> k) (mod_evidences s') =
        filter (\<lambda>x. ev_id x \<noteq> k) (mod_evidences s)"
    using idbPut_other_keys [of ev_id q "mod_evidences s"] q by simp
  with kept save have e:
    "mod_users (snd (saveEvidenceForUser t1 t2 u d tipo img ocr s)) = mod_users s"
    "mod_config (snd (saveEvidenceForUser t1 t2 u d tipo img ocr s)) = mod_config s"
    "filter (\<lambda>x. ev_id x \<noteq> k) (mod_evidences (snd (saveEvidenceForUser t1 t2 u d tipo img ocr s))) =
     filter (\<lambda>x. ev_id x \<noteq> k) (mod_evidences s)"
    by simp_all
  from a a' b c d e show ?thesis unfolding ev_def w'_def k_def by blast
qed

theorem handleAttendanceSubmit_counts_witness:
  "currentUserId ana_selected = Some 1
   \<and> find (\<lambda>u. fst u = Some 1) (getAll (users_store ana_selected)) = Some (Some 1, ana)
   \<and> totalAssists ana = Some 5
   \<and> find (\<lambda>u. fst u = Some 1)
        (getAll (users_store
           (fst (handleAttendanceSubmit (always_status 200) ''t1'' ''t2'' form_jan10
                   ana_selected)))) =
       Some (Some 1, ana\<lparr>totalAssists := Some 6, lastAssistance := Some ''2024-01-10''\<rparr>)
   \<and> rows (evidences_store
        (fst (handleAttendanceSubmit (always_status 200) ''t1'' ''t2'' form_jan10
                ana_selected))) =
       [(1, \<lparr>userId = 1, date = ''2024-01-10'', amount = ''25.50'', notes_text = [],
             image_data = None, timestamp = ''t1''\<rparr>)]"
proof -
  have sel: "currentUserId ana_selected = Some 1" "(1::nat) \<noteq> 0"
    by (simp_all add: ana_selected_def fresh_state_def)
  have present: "find (\<lambda>u. fst u = Some 1) (getAll (users_store ana_selected)) =
                   Some (Some 1, ana)"
    by (simp add: ana_selected_def fresh_state_def getAll_def)
  have fresh: "keygen (evidences_store ana_selected) \<notin>
                 set (map fst (rows (evidences_store ana_selected)))"
    by (simp add: ana_selected_def fresh_state_def)
  have run: "handleAttendanceSubmit (always_status 200) ''t1'' ''t2'' form_jan10 ana_selected =
               (fst (handleAttendanceSubmit (always_status 200) ''t1'' ''t2'' form_jan10
                       ana_selected),
                snd (handleAttendanceSubmit (always_status 200) ''t1'' ''t2'' form_jan10
                       ana_selected))"
    by simp
  have safe: "\<bar>or_zero (totalAssists ana)\<bar> < 2 ^ 53"
    by (simp add: ana_def or_zero_def)
  have empty: "rows (evidences_store ana_selected) = []" "keygen (evidences_store ana_selected) = 1"
    by (simp_all add: ana_selected_def fresh_state_def)
  from handleAttendanceSubmit_counts [OF sel present fresh run] sel present safe empty
  show ?thesis
    by (simp add: ana_def or_zero_def form_jan10_def)
qed

text \<open>
  At \<open>2 ^ 53\<close> the sum is rounded back to \<open>2 ^ 53\<close>, as the addition of the source
  is.
\<close>

lemma plus_one_at_limit: "plus_one 9007199254740992 = 9007199254740992"
  by (simp add: plus_one_def round_to_double_def Let_def bit_length.simps)

subsection \<open>Remote synchronisation\<close>

lemma fetch_loop_done:
  "\<not> i < retries \<Longrightarrow> fetch_loop srv req retries i tr = (Resolved_undefined, tr)"
  by (simp add: fetch_loop.simps [of srv req retries i tr])

lemma fetch_loop_step:
  assumes "i < retries"
  shows "(\<exists>res. fetch_loop srv req retries i tr = (res, tr\<lparr>requests := requests tr @ [req]\<rparr>))
       \<or> fetch_loop srv req retries i tr =
           fetch_loop srv req retries (Suc i)
             (tr\<lparr>requests := requests tr @ [req], delays := delays tr @ [2 ^ i * 1000]\<rparr>)"
  using assms
  by (simp add: fetch_loop.simps [of srv req retries i tr] Let_def split: fetch_outcome.splits)

lemma fetch_loop_requests:
  "retries - i = m \<Longrightarrow>
   \<exists>n. n \<le> m \<and> (i < retries \<longrightarrow> 0 < n) \<and>
       requests (snd (fetch_loop srv req retries i tr)) = requests tr @ replicate n req"
proof (induction m arbitrary: i tr)
  case 0
  then have "\<not> i < retries" by simp
  then show ?case by (simp add: fetch_loop_done)
next
  case (Suc m)
  then have lt: "i < retries" and m: "retries - Suc i = m" by simp_all
  from fetch_loop_step [OF lt, of srv req tr] show ?case
  proof
    assume "\<exists>res. fetch_loop srv req retries i tr = (res, tr\<lparr>requests := requests tr @ [req]\<rparr>)"
    then have "requests (snd (fetch_loop srv req retries i tr)) = requests tr @ replicate 1 req"
      by auto
    then show ?thesis using lt by (intro exI [of _ 1]) simp
  next
    assume step: "fetch_loop srv req retries i tr =
           fetch_loop srv req retries (Suc i)
             (tr\<lparr>requests := requests tr @ [req], delays := delays tr @ [2 ^ i * 1000]\<rparr>)"
    from Suc.IH [OF m, of "tr\<lparr>requests := requests tr @ [req], delays := delays tr @ [2 ^ i * 1000]\<rparr>"]
    obtain n where n: "n \<le> m"
      "requests (snd (fetch_loop srv req retries (Suc i)
             (tr\<lparr>requests := requests tr @ [req], delays := delays tr @ [2 ^ i * 1000]\<rparr>))) =
         (requests tr @ [req]) @ replicate n req"
      by auto
    have "requests (snd (fetch_loop srv req retries i tr)) = requests tr @ replicate (Suc n) req"
      using step n(2) by simp
    then show ?thesis using n(1) by (intro exI [of _ "Suc n"]) simp
  qed
qed

lemma fetchWithBackoff_requests:
  "\<exists>n. 0 < n \<and> n \<le> 5 \<and> requests (snd (fetchWithBackoff srv req)) = replicate n req"
  using fetch_loop_requests [of 5 0 5 srv req no_traffic]
  by (auto simp: fetchWithBackoff_def no_traffic_def)

lemma saveDataToGist_trace:
  "gid \<noteq> [] \<Longrightarrow> tok \<noteq> [] \<Longrightarrow>
   snd (snd (saveDataToGist srv now gid tok st)) =
     snd (fetchWithBackoff srv (save_request now gid tok st))"
  by (auto simp: saveDataToGist_def split: prod.splits fetch_result.splits)

lemma loadDataFromGist_failure_cases:
  "gid \<noteq> [] \<Longrightarrow> tok \<noteq> [] \<Longrightarrow>
   snd (loadDataFromGist srv gid tok) = snd (fetchWithBackoff srv (load_request gid tok))"
  by (auto simp: loadDataFromGist_def split: prod.splits fetch_result.splits option.splits)




text \<open>
  C8.  The claim: every push serializes exactly the two collections and nothing
  else.  The file content that \<open>saveDataToGist\<close> sends has a third member, the
  time of the push.
\<close>

theorem saveDataToGist_sends_lastSync:
  "map (map_option (map snd \<circ> files) \<circ> body)
     (requests (snd (snd (saveDataToGist (always_status 200) ''2024-01-10T08:00:00.000Z''
                            ''g1'' ''t1'' ana_selected)))) =
     [Some [\<lparr>users = getAll (users_store ana_selected),
              evidences = getAll (evidences_store ana_selected),
              lastSync = Some ''2024-01-10T08:00:00.000Z''\<rparr>]]
   \<and> map (map_option (map snd \<circ> files) \<circ> body)
     (requests (snd (snd (saveDataToGist (always_status 200) ''2024-01-10T08:00:00.000Z''
                            ''g1'' ''t1'' ana_selected)))) \<noteq>
     [Some [\<lparr>users = getAll (users_store ana_selected),
              evidences = getAll (evidences_store ana_selected),
              lastSync = None\<rparr>]]"
  by (simp add: saveDataToGist_def fetchWithBackoff_def fetch_loop.simps always_status_def
        ok_def no_traffic_def save_request_def Let_def)

text \<open>
  C8 as amended.  A configured \<open>saveDataToGist\<close> sends between one and five
  requests, all equal: a PATCH whose body names the one file
  \<open>asistencias_pro_data.json\<close>, with the whole content \<open>users\<close> = all workers,
  \<open>evidences\<close> = all evidence records and \<open>lastSync\<close> = the time of the push.  A
  configured \<open>syncToGist\<close> sends one PATCH whose one file holds exactly the two
  collections.  With an empty Gist id or an empty token neither sends a request.
\<close>

theorem push_request_content:
  "(gid \<noteq> [] \<and> tok \<noteq> [] \<longrightarrow>
      (\<exists>n. 0 < n \<and> n \<le> 5 \<and>
           requests (snd (snd (saveDataToGist srv now gid tok st))) =
             replicate n (save_request now gid tok st)))
   \<and> (gid = [] \<or> tok = [] \<longrightarrow>
        requests (snd (snd (saveDataToGist srv now gid tok st))) = [])
   \<and> req_method (save_request now gid tok st) = PATCH
   \<and> map_option files (body (save_request now gid tok st)) =
       Some [(DATA_FILE, \<lparr>users = getAll (users_store st),
                           evidences = getAll (evidences_store st),
                           lastSync = Some now\<rparr>)]
   \<and> (gistId (module_getGistConfig s) \<noteq> [] \<and> token (module_getGistConfig s) \<noteq> [] \<longrightarrow>
        requests (snd (syncToGist msrv now s)) = [sync_request now (module_getGistConfig s) s])
   \<and> (gistId (module_getGistConfig s) = [] \<or> token (module_getGistConfig s) = [] \<longrightarrow>
        requests (snd (syncToGist msrv now s)) = [])
   \<and> req_method (sync_request now cfg s) = PATCH
   \<and> map_option files (body (sync_request now cfg s)) =
       Some [(GIST_FILE_NAME, \<lparr>users = idbGetAll fst (mod_users s),
                                evidences = idbGetAll ev_id (mod_evidences s),
                                lastSync = None\<rparr>)]"
proof -
  have a: "\<exists>n. 0 < n \<and> n \<le> 5 \<and>
           requests (snd (snd (saveDataToGist srv now gid tok st))) =
             replicate n (save_request now gid tok st)"
    if "gid \<noteq> []" "tok \<noteq> []"
    using fetchWithBackoff_requests [of srv "save_request now gid tok st"]
      saveDataToGist_trace [OF that, of srv now st]
    by simp
  have a': "requests (snd (snd (saveDataToGist srv now gid tok st))) = []"
    if "gid = [] \<or> tok = []"
    using that by (auto simp: saveDataToGist_def no_traffic_def)
  have b: "req_method (save_request now gid tok st) = PATCH"
    "map_option files (body (save_request now gid tok st)) =
       Some [(DATA_FILE, \<lparr>users = getAll (users_store st),
                           evidences = getAll (evidences_store st),
                           lastSync = Some now\<rparr>)]"
    by (simp_all add: save_request_def Let_def)
  have c: "requests (snd (syncToGist msrv now s)) = [sync_request now (module_getGistConfig s) s]"
    if "gistId (module_getGistConfig s) \<noteq> []" "token (module_getGistConfig s) \<noteq> []"
    using that by (simp add: syncToGist_def Let_def split: fetch_outcome.splits)
  have c': "requests (snd (syncToGist msrv now s)) = []"
    if "gistId (module_getGistConfig s) = [] \<or> token (module_getGistConfig s) = []"
    using that by (auto simp: syncToGist_def Let_def no_traffic_def)
  have d: "req_method (sync_request now cfg s) = PATCH"
    "map_option files (body (sync_request now cfg s)) =
       Some [(GIST_FILE_NAME, \<lparr>users = idbGetAll fst (mod_users s),
                                evidences = idbGetAll ev_id (mod_evidences s),
                                lastSync = None\<rparr>)]"
    by (simp_all add: sync_request_def Let_def)
  from a a' b c c' d show ?thesis by blast
qed

theorem push_request_content_witness:
  "requests (snd (snd (saveDataToGist (always_status 200) ''now'' ''g1'' ''t1'' ana_selected))) =
     replicate 1 (save_request ''now'' ''g1'' ''t1'' ana_selected)
   \<and> requests (snd (snd (saveDataToGist (always_status 200) ''now'' [] ''t1'' ana_selected))) = []
   \<and> req_method (save_request ''now'' ''g1'' ''t1'' ana_selected) = PATCH
   \<and> map_option files (body (save_request ''now'' ''g1'' ''t1'' ana_selected)) =
       Some [(DATA_FILE, \<lparr>users = [(Some 1, ana)], evidences = [], lastSync = Some ''now''\<rparr>)]
   \<and> requests (snd (syncToGist (always_status 200) ''now''
        (w1_once\<lparr>mod_config := Some \<lparr>gistId = ''g1'', token = ''t1''\<rparr>\<rparr>))) =
       [sync_request ''now'' \<lparr>gistId = ''g1'', token = ''t1''\<rparr>
          (w1_once\<lparr>mod_config := Some \<lparr>gistId = ''g1'', token = ''t1''\<rparr>\<rparr>)]
   \<and> map_option files (body (sync_request ''now'' \<lparr>gistId = ''g1'', token = ''t1''\<rparr>
          (w1_once\<lparr>mod_config := Some \<lparr>gistId = ''g1'', token = ''t1''\<rparr>\<rparr>))) =
       Some [(GIST_FILE_NAME, \<lparr>users = mod_users w1_state, evidences = [w1_record ''img1''],
                                lastSync = None\<rparr>)]
   \<and> gistId (module_getGistConfig w1_once) = []
   \<and> requests (snd (syncToGist (always_status 200) ''now'' w1_once)) = []"
proof -
  have one: "requests (snd (snd (saveDataToGist (always_status 200) ''now'' ''g1'' ''t1''
                                    ana_selected))) =
               [save_request ''now'' ''g1'' ''t1'' ana_selected]"
    by (simp add: saveDataToGist_def fetchWithBackoff_def fetch_loop.simps always_status_def
          ok_def no_traffic_def)
  have cfg: "module_getGistConfig (w1_once\<lparr>mod_config := Some \<lparr>gistId = ''g1'', token = ''t1''\<rparr>\<rparr>) =
               \<lparr>gistId = ''g1'', token = ''t1''\<rparr>"
    by (simp add: module_getGistConfig_def)
  have none: "gistId (module_getGistConfig w1_once) = []"
    by (simp add: module_getGistConfig_def w1_once_def w1_state_def)
  have rows: "getAll (users_store ana_selected) = [(Some 1, ana)]"
    "getAll (evidences_store ana_selected) = []"
    by (simp_all add: ana_selected_def fresh_state_def getAll_def)
  have stored: "idbGetAll fst (mod_users w1_once) = mod_users w1_state"
    "idbGetAll ev_id (mod_evidences w1_once) = [w1_record ''img1'']"
    by (simp_all add: idbGetAll_def w1_once_def w1_state_def)
  have h: "([] :: string) = [] \<or> ''t1'' = []" by simp
  from push_request_content
         [of "''g1''" "''t1''" "always_status 200" "''now''" ana_selected
             "w1_once\<lparr>mod_config := Some \<lparr>gistId = ''g1'', token = ''t1''\<rparr>\<rparr>"
             "always_status 200" "\<lparr>gistId = ''g1'', token = ''t1''\<rparr>"]
       push_request_content
         [of "[]" "''t1''" "always_status 200" "''now''" ana_selected w1_once
             "always_status 200" "\<lparr>gistId = ''g1'', token = ''t1''\<rparr>"]
       one cfg none rows stored h
  show ?thesis by simp
qed

subsection \<open>Loading on start\<close>





subsection \<open>Bulk replacement of a collection\<close>

lemma tx_request_add:
  assumes "tx_request (store_add data) t = Inr t1"
  shows "before t1 = before t
       \<and> rows (working t1) = rows (working t) @ [(key_for (working t) data, snd data)]
       \<and> keygen (working t1) = max (keygen (working t)) (key_for (working t) data + 1)
       \<and> key_for (working t) data \<notin> set (map fst (rows (working t)))
       \<and> life t \<noteq> Some 0 \<and> life t1 = map_option (\<lambda>n. n - 1) (life t)"
  using assms
  by (auto simp: tx_request_def store_add_def Let_def split: if_splits sum.splits)

lemma strip_id_snd: "snd (strip_id nm data) = snd data"
  by (simp add: strip_id_def)

lemma addNext_appends:
  "addNext nm t xs = Inr t' \<Longrightarrow>
   before t' = before t \<and>
   (\<exists>new. rows (working t') = rows (working t) @ new \<and> map snd new = map snd xs)"
proof (induction xs arbitrary: t)
  case Nil
  then show ?case by simp
next
  case (Cons x xs)
  from Cons.prems obtain t1 where
    t1: "tx_request (store_add (strip_id nm x)) t = Inr t1" and rest: "addNext nm t1 xs = Inr t'"
    by (auto split: sum.splits)
  from Cons.IH [OF rest] obtain new where
    new: "before t' = before t1" "rows (working t') = rows (working t1) @ new"
         "map snd new = map snd xs"
    by blast
  from tx_request_add [OF t1] have
    a: "before t1 = before t"
       "rows (working t1) = rows (working t) @ [(key_for (working t) (strip_id nm x), snd x)]"
    by (simp_all add: strip_id_snd)
  have "rows (working t') =
          rows (working t) @ ((key_for (working t) (strip_id nm x), snd x) # new)"
    using new(2) a(2) by simp
  moreover have "map snd ((key_for (working t) (strip_id nm x), snd x) # new) = map snd (x # xs)"
    using new(3) by simp
  ultimately show ?case using new(1) a(1) by metis
qed

lemma addNext_invariant:
  "addNext nm t xs = Inr t' \<Longrightarrow> \<forall>k \<in> set (map fst (rows (working t))). k < keygen (working t) \<Longrightarrow>
   distinct (map fst (rows (working t))) \<Longrightarrow>
   (\<forall>k \<in> set (map fst (rows (working t'))). k < keygen (working t')) \<and>
   distinct (map fst (rows (working t')))"
proof (induction xs arbitrary: t)
  case Nil
  then show ?case by simp
next
  case (Cons x xs)
  from Cons.prems(1) obtain t1 where
    t1: "tx_request (store_add (strip_id nm x)) t = Inr t1" and rest: "addNext nm t1 xs = Inr t'"
    by (auto split: sum.splits)
  from tx_request_add [OF t1] Cons.prems(2,3)
  have "\<forall>k \<in> set (map fst (rows (working t1))). k < keygen (working t1)"
       "distinct (map fst (rows (working t1)))"
    by auto
  with Cons.IH [OF rest] show ?case by blast
qed

text \<open>
  A key taken from the generator is above the keys of all records stored before it
  in the same run.
\<close>

lemma addNext_generated_keys:
  "addNext nm t xs = Inr t' \<Longrightarrow> \<forall>k \<in> set (map fst (rows (working t))). k < keygen (working t) \<Longrightarrow>
   \<forall>j < length xs. fst (strip_id nm (xs ! j)) = None \<longrightarrow>
     (\<forall>i < length (rows (working t)) + j.
        fst (rows (working t') ! i) < fst (rows (working t') ! (length (rows (working t)) + j)))"
proof (induction xs arbitrary: t)
  case Nil
  then show ?case by simp
next
  case (Cons x xs)
  let ?n = "length (rows (working t))"
  let ?k = "key_for (working t) (strip_id nm x)"
  from Cons.prems(1) obtain t1 where
    t1: "tx_request (store_add (strip_id nm x)) t = Inr t1" and rest: "addNext nm t1 xs = Inr t'"
    by (auto split: sum.splits)
  from tx_request_add [OF t1] have
    r1: "rows (working t1) = rows (working t) @ [(?k, snd x)]"
    and g1: "keygen (working t1) = max (keygen (working t)) (?k + 1)"
    by (simp_all add: strip_id_snd)
  from addNext_appends [OF rest] obtain new where
    new: "rows (working t') = rows (working t1) @ new"
    by blast
  have inv1: "\<forall>k \<in> set (map fst (rows (working t1))). k < keygen (working t1)"
    using r1 g1 Cons.prems(2) by auto
  have len1: "length (rows (working t1)) = Suc ?n"
    using r1 by simp
  note ih = Cons.IH [OF rest inv1, unfolded len1]
  show ?case
  proof (intro allI impI)
    fix j i
    assume j: "j < length (x # xs)" and auto_j: "fst (strip_id nm ((x # xs) ! j)) = None"
      and i: "i < ?n + j"
    show "fst (rows (working t') ! i) < fst (rows (working t') ! (?n + j))"
    proof (cases j)
      case 0
      then have "?k = keygen (working t)"
        using auto_j by (simp add: key_for_def)
      moreover have "rows (working t') ! i = rows (working t) ! i"
        using i 0 new r1 by (simp add: nth_append)
      moreover have "rows (working t') ! (?n + j) = (?k, snd x)"
        using 0 new r1 by (simp add: nth_append)
      moreover have "fst (rows (working t) ! i) < keygen (working t)"
        using Cons.prems(2) i 0 by simp
      ultimately show ?thesis by simp
    next
      case (Suc j')
      then have "j' < length xs" "fst (strip_id nm (xs ! j')) = None" "i < Suc ?n + j'"
        using j auto_j i by simp_all
      with ih have "fst (rows (working t') ! i) < fst (rows (working t') ! (Suc ?n + j'))"
        by blast
      then show ?thesis using Suc by simp
    qed
  qed
qed

text \<open>A key given in the element is the key of its record.\<close>

lemma addNext_given_keys:
  "addNext nm t xs = Inr t' \<Longrightarrow>
   \<forall>j < length xs. \<forall>k. fst (strip_id nm (xs ! j)) = Some k \<longrightarrow>
     fst (rows (working t') ! (length (rows (working t)) + j)) = k"
proof (induction xs arbitrary: t)
  case Nil
  then show ?case by simp
next
  case (Cons x xs)
  let ?n = "length (rows (working t))"
  let ?k = "key_for (working t) (strip_id nm x)"
  from Cons.prems(1) obtain t1 where
    t1: "tx_request (store_add (strip_id nm x)) t = Inr t1" and rest: "addNext nm t1 xs = Inr t'"
    by (auto split: sum.splits)
  from tx_request_add [OF t1] have
    r1: "rows (working t1) = rows (working t) @ [(?k, snd x)]"
    by (simp_all add: strip_id_snd)
  from addNext_appends [OF rest] obtain new where
    new: "rows (working t') = rows (working t1) @ new"
    by blast
  have len1: "length (rows (working t1)) = Suc ?n"
    using r1 by simp
  note ih = Cons.IH [OF rest, unfolded len1]
  show ?case
  proof (intro allI impI)
    fix j k
    assume j: "j < length (x # xs)" and given: "fst (strip_id nm ((x # xs) ! j)) = Some k"
    show "fst (rows (working t') ! (?n + j)) = k"
    proof (cases j)
      case 0
      then have "?k = k" using given by (simp add: key_for_def)
      moreover have "rows (working t') ! (?n + j) = (?k, snd x)"
        using 0 new r1 by (simp add: nth_append)
      ultimately show ?thesis by simp
    next
      case (Suc j')
      then have "j' < length xs" "fst (strip_id nm (xs ! j')) = Some k"
        using j given by simp_all
      with ih have "fst (rows (working t') ! (Suc ?n + j')) = k" by blast
      then show ?thesis using Suc by simp
    qed
  qed
qed

text \<open>With no key given and no abort, every \<open>add\<close> succeeds and takes the next number.\<close>

lemma addNext_all_generated:
  "life t = None \<Longrightarrow> \<forall>k \<in> set (map fst (rows (working t))). k < keygen (working t) \<Longrightarrow>
   \<forall>x \<in> set xs. fst (strip_id nm x) = None \<Longrightarrow>
   \<exists>t'. addNext nm t xs = Inr t' \<and> life t' = None \<and>
        rows (working t') =
          rows (working t) @
            zip [keygen (working t) ..< keygen (working t) + length xs] (map snd xs)"
proof (induction xs arbitrary: t)
  case Nil
  then show ?case by simp
next
  case (Cons x xs)
  let ?g = "keygen (working t)"
  let ?t1 = "t\<lparr>working := \<lparr>keygen = Suc ?g, rows = rows (working t) @ [(?g, snd x)]\<rparr>\<rparr>"
  have auto_x: "fst (strip_id nm x) = None" using Cons.prems(3) by simp
  have fresh: "?g \<notin> set (map fst (rows (working t)))"
    using Cons.prems(2) by auto
  have step: "tx_request (store_add (strip_id nm x)) t = Inr ?t1"
    using Cons.prems(1) auto_x fresh
    by (simp add: tx_request_def store_add_def key_for_def Let_def strip_id_snd)
  have "life ?t1 = None" using Cons.prems(1) by simp
  moreover have "\<forall>k \<in> set (map fst (rows (working ?t1))). k < keygen (working ?t1)"
    using Cons.prems(2) by auto
  moreover have "\<forall>x \<in> set xs. fst (strip_id nm x) = None" using Cons.prems(3) by simp
  ultimately obtain t' where
    t': "addNext nm ?t1 xs = Inr t'" "life t' = None"
        "rows (working t') =
           rows (working ?t1) @ zip [keygen (working ?t1) ..< keygen (working ?t1) + length xs] (map snd xs)"
    using Cons.IH [of ?t1] by blast
  have u: "[?g ..< ?g + length (x # xs)] = ?g # [Suc ?g ..< Suc ?g + length xs]"
    by (simp add: upt_conv_Cons del: upt_Suc)
  have "addNext nm t (x # xs) = Inr t'" using step t'(1) by simp
  moreover have "rows (working t') =
          rows (working t) @ zip [?g ..< ?g + length (x # xs)] (map snd (x # xs))"
    unfolding u using t'(3) by (simp del: upt_Suc)
  ultimately show ?case using t'(2) by blast
qed


lemma addNext_never_aborted:
  "addNext nm t xs = Inr t' \<Longrightarrow> life t = None \<Longrightarrow> life t' = None"
proof (induction xs arbitrary: t)
  case Nil
  then show ?case by simp
next
  case (Cons x xs)
  from Cons.prems(1) obtain u where
    u: "tx_request (store_add (strip_id nm x)) t = Inr u" and rest: "addNext nm u xs = Inr t'"
    by (auto split: sum.splits)
  from tx_request_add [OF u] Cons.prems(2) have "life u = None" by simp
  with Cons.IH [OF rest] show ?case .
qed

lemma addNext_life:
  "addNext nm t xs = Inr t' \<Longrightarrow> life t = Some n \<Longrightarrow>
   length xs \<le> n \<and> life t' = Some (n - length xs)"
proof (induction xs arbitrary: t n)
  case Nil
  then show ?case by simp
next
  case (Cons x xs)
  from Cons.prems(1) obtain u where
    u: "tx_request (store_add (strip_id nm x)) t = Inr u" and rest: "addNext nm u xs = Inr t'"
    by (auto split: sum.splits)
  from tx_request_add [OF u] Cons.prems(2) have "n \<noteq> 0" "life u = Some (n - 1)"
    by simp_all
  with Cons.IH [OF rest, of "n - 1"] show ?case by auto
qed

lemma before_tx_begin: "before (tx_begin l s) = s"
  by (simp add: tx_begin_def)

lemma tx_request_clear:
  "tx_request store_clear (tx_begin l s) =
     (if l = Some 0 then Inl Abort_error
      else Inr \<lparr>before = s, working = s\<lparr>rows := []\<rparr>, life = map_option (\<lambda>n. n - 1) l\<rparr>)"
  by (simp add: tx_request_def store_clear_def tx_begin_def)

lemma getAll_generated:
  assumes "rows s' = zip [g ..< g + length xs] (map snd xs)"
  shows "getAll s' = map (\<lambda>(k, x). (Some k, snd x)) (zip [g ..< g + length xs] xs)"
proof -
  have "sorted (map fst (rows s'))"
    using assms by simp
  then have "sort_key fst (rows s') = rows s'"
    by (rule sort_key_id_if_sorted)
  then show ?thesis
    using assms by (simp add: getAll_def zip_map2 case_prod_unfold)
qed

text \<open>
  C6.  \<open>clearAndBulkAdd\<close> runs the \<open>clear\<close> and every \<open>add\<close> in one
  transaction.  Whatever the point at which the transaction is aborted, the store
  afterwards is the old store or holds exactly the given sequence, never a part of
  it; a rejected promise leaves the old store, and so does an abort at any point
  up to the commit.  When the transaction is not aborted and the promise resolves,
  the records are the given elements in their order, under distinct keys; an
  element with a key keeps it, and an element without one takes a generated key
  above the keys of all elements before it.  When no element has a key the call
  succeeds and \<open>getAll\<close> returns the sequence in its order under consecutive keys.
\<close>

theorem clearAndBulkAdd_atomic:
  assumes run: "clearAndBulkAdd_tx l storeName s dataArray = (res, s')"
  shows "(s' = s \<or> (res = Inr () \<and> map snd (rows s') = map snd dataArray))
       \<and> (res \<noteq> Inr () \<longrightarrow> s' = s)
       \<and> (l = None \<and> res = Inr () \<longrightarrow>
            map snd (rows s') = map snd dataArray \<and> distinct (map fst (rows s'))
            \<and> (\<forall>j < length dataArray. fst (strip_id storeName (dataArray ! j)) = None \<longrightarrow>
                  (\<forall>i < j. fst (rows s' ! i) < fst (rows s' ! j)))
            \<and> (\<forall>j < length dataArray. \<forall>k. fst (strip_id storeName (dataArray ! j)) = Some k \<longrightarrow>
                  fst (rows s' ! j) = k))
       \<and> (l = None \<and> (\<forall>x \<in> set dataArray. fst (strip_id storeName x) = None) \<longrightarrow>
            res = Inr () \<and>
            getAll s' = map (\<lambda>(k, x). (Some k, snd x))
                          (zip [keygen s ..< keygen s + length dataArray] dataArray))
       \<and> (\<forall>n. l = Some n \<and> n \<le> Suc (length dataArray) \<longrightarrow> s' = s)"
proof -
  define t1 :: "'a txn" where
    "t1 = \<lparr>before = s, working = s\<lparr>rows := []\<rparr>, life = map_option (\<lambda>n. n - 1) l\<rparr>"
  have t1_simps: "before t1 = s" "rows (working t1) = []" "keygen (working t1) = keygen s"
    "life t1 = map_option (\<lambda>n. n - 1) l"
    by (simp_all add: t1_def)
  have unfolded: "(res, s') =
      (if l = Some 0 then (Inl Abort_error, s)
       else case addNext storeName t1 dataArray of
              Inl e \<Rightarrow> (Inl e, s)
            | Inr t2 \<Rightarrow> (Inr (), tx_finish t2))"
    using run
    by (auto simp: clearAndBulkAdd_tx_def tx_request_clear t1_def Let_def before_tx_begin cong: sum.case_cong)
  have committed: "map snd (rows (working t2)) = map snd dataArray
      \<and> distinct (map fst (rows (working t2)))
      \<and> (\<forall>j < length dataArray. fst (strip_id storeName (dataArray ! j)) = None \<longrightarrow>
            (\<forall>i < j. fst (rows (working t2) ! i) < fst (rows (working t2) ! j)))
      \<and> (\<forall>j < length dataArray. \<forall>k. fst (strip_id storeName (dataArray ! j)) = Some k \<longrightarrow>
            fst (rows (working t2) ! j) = k)
      \<and> before t2 = s"
    if t2: "addNext storeName t1 dataArray = Inr t2" for t2
  proof -
    have inv: "\<forall>k \<in> set (map fst (rows (working t1))). k < keygen (working t1)"
      "distinct (map fst (rows (working t1)))"
      by (simp_all add: t1_simps)
    from addNext_appends [OF t2] have "map snd (rows (working t2)) = map snd dataArray"
      and "before t2 = s"
      by (auto simp: t1_simps)
    moreover from addNext_invariant [OF t2 inv] have "distinct (map fst (rows (working t2)))"
      by simp
    moreover from addNext_generated_keys [OF t2 inv(1)]
    have "\<forall>j < length dataArray. fst (strip_id storeName (dataArray ! j)) = None \<longrightarrow>
            (\<forall>i < j. fst (rows (working t2) ! i) < fst (rows (working t2) ! j))"
      by (simp add: t1_simps)
    moreover from addNext_given_keys [OF t2]
    have "\<forall>j < length dataArray. \<forall>k. fst (strip_id storeName (dataArray ! j)) = Some k \<longrightarrow>
            fst (rows (working t2) ! j) = k"
      by (simp add: t1_simps)
    ultimately show ?thesis by blast
  qed
  have a: "s' = s \<or> (res = Inr () \<and> map snd (rows s') = map snd dataArray)"
    using unfolded committed
    by (auto simp: tx_finish_def split: if_splits sum.splits)
  have b: "res \<noteq> Inr () \<longrightarrow> s' = s"
    using unfolded by (auto split: if_splits sum.splits)
  have c: "map snd (rows s') = map snd dataArray \<and> distinct (map fst (rows s'))
            \<and> (\<forall>j < length dataArray. fst (strip_id storeName (dataArray ! j)) = None \<longrightarrow>
                  (\<forall>i < j. fst (rows s' ! i) < fst (rows s' ! j)))
            \<and> (\<forall>j < length dataArray. \<forall>k. fst (strip_id storeName (dataArray ! j)) = Some k \<longrightarrow>
                  fst (rows s' ! j) = k)"
    if "l = None" "res = Inr ()"
  proof -
    from that unfolded obtain t2 where
      t2: "addNext storeName t1 dataArray = Inr t2" and s': "s' = tx_finish t2"
      by (auto split: sum.splits)
    have "life t1 = None" using that(1) by (simp add: t1_simps)
    have "life t2 \<noteq> Some 0"
      using addNext_never_aborted [OF t2 \<open>life t1 = None\<close>] by simp
    then have "s' = working t2" using s' by (simp add: tx_finish_def)
    with committed [OF t2] show ?thesis by simp
  qed
  have d: "res = Inr () \<and>
            getAll s' = map (\<lambda>(k, x). (Some k, snd x))
                          (zip [keygen s ..< keygen s + length dataArray] dataArray)"
    if no_abort: "l = None"
      and generated: "\<forall>x \<in> set dataArray. fst (strip_id storeName x) = None"
  proof -
    have "life t1 = None" using no_abort by (simp add: t1_simps)
    moreover have "\<forall>k \<in> set (map fst (rows (working t1))). k < keygen (working t1)"
      by (simp add: t1_simps)
    ultimately obtain t2 where
      t2: "addNext storeName t1 dataArray = Inr t2" "life t2 = None"
          "rows (working t2) =
             rows (working t1) @
               zip [keygen (working t1) ..< keygen (working t1) + length dataArray]
                 (map snd dataArray)"
      using addNext_all_generated [OF _ _ generated, of t1] by blast
    from unfolded t2(1) no_abort have r: "res = Inr ()" and s': "s' = tx_finish t2"
      by simp_all
    from s' t2(2) have "s' = working t2" by (simp add: tx_finish_def)
    with t2(3) have "rows s' = zip [keygen s ..< keygen s + length dataArray] (map snd dataArray)"
      by (simp add: t1_simps)
    from getAll_generated [OF this] r show ?thesis by simp
  qed
  have e: "s' = s" if aborted: "l = Some n" and early: "n \<le> Suc (length dataArray)" for n
  proof (cases "addNext storeName t1 dataArray")
    case (Inl err)
    with unfolded show ?thesis by (simp split: if_splits)
  next
    case (Inr t2)
    show ?thesis
    proof (cases "n = 0")
      case True
      with unfolded aborted show ?thesis by simp
    next
      case False
      have "life t1 = Some (n - 1)" using aborted by (simp add: t1_simps)
      from addNext_life [OF Inr this] early False have "life t2 = Some 0" by auto
      moreover from committed [OF Inr] have "before t2 = s" by simp
      ultimately show ?thesis
        using unfolded Inr aborted False by (simp add: tx_finish_def)
    qed
  qed
  from a b c d e show ?thesis by blast
qed

theorem clearAndBulkAdd_atomic_witness:
  "clearAndBulkAdd_tx None USERS (users_store ana_selected) INITIAL_USERS =
     (Inr (), \<lparr>keygen = 4,
               rows = [(1, snd (INITIAL_USERS ! 0)), (2, snd (INITIAL_USERS ! 1)),
                       (3, snd (INITIAL_USERS ! 2))]\<rparr>)
   \<and> clearAndBulkAdd_tx None EVIDENCES (evidences_store ana_selected)
       [(None, event_jan10), (Some 0, event_jan10)] =
     (Inr (), \<lparr>keygen = 3, rows = [(1, event_jan10), (2, event_jan10)]\<rparr>)
   \<and> getAll \<lparr>keygen = 3, rows = [(1, event_jan10), (2, event_jan10)]\<rparr> =
       [(Some 1, event_jan10), (Some 2, event_jan10)]
   \<and> clearAndBulkAdd_tx (Some 2) USERS (users_store ana_selected) INITIAL_USERS =
     (Inl Abort_error, users_store ana_selected)
   \<and> clearAndBulkAdd_tx (Some 4) USERS (users_store ana_selected) INITIAL_USERS =
     (Inr (), users_store ana_selected)"
proof -
  have given: "clearAndBulkAdd_tx None USERS (users_store ana_selected) INITIAL_USERS =
     (Inr (), \<lparr>keygen = 4,
               rows = [(1, snd (INITIAL_USERS ! 0)), (2, snd (INITIAL_USERS ! 1)),
                       (3, snd (INITIAL_USERS ! 2))]\<rparr>)"
    by (simp add: clearAndBulkAdd_tx_def tx_begin_def tx_request_def tx_finish_def
          store_clear_def store_add_def strip_id_def key_for_def INITIAL_USERS_def
          ana_selected_def fresh_state_def)
  have generated: "clearAndBulkAdd_tx None EVIDENCES (evidences_store ana_selected)
       [(None, event_jan10), (Some 0, event_jan10)] =
     (Inr (), \<lparr>keygen = 3, rows = [(1, event_jan10), (2, event_jan10)]\<rparr>)"
    by (simp add: clearAndBulkAdd_tx_def tx_begin_def tx_request_def tx_finish_def
          store_clear_def store_add_def strip_id_def falsy_id_def key_for_def
          ana_selected_def fresh_state_def)
  have aborted: "clearAndBulkAdd_tx (Some 2) USERS (users_store ana_selected) INITIAL_USERS =
     (Inl Abort_error, users_store ana_selected)"
    by (simp add: clearAndBulkAdd_tx_def tx_begin_def tx_request_def tx_finish_def
          store_clear_def store_add_def strip_id_def key_for_def INITIAL_USERS_def
          ana_selected_def fresh_state_def)
  have late: "clearAndBulkAdd_tx (Some 4) USERS (users_store ana_selected) INITIAL_USERS =
     (Inr (), users_store ana_selected)"
    by (simp add: clearAndBulkAdd_tx_def tx_begin_def tx_request_def tx_finish_def
          store_clear_def store_add_def strip_id_def key_for_def INITIAL_USERS_def
          ana_selected_def fresh_state_def)
  have all_generated:
    "\<forall>x \<in> set [(None, event_jan10), (Some 0, event_jan10)]. fst (strip_id EVIDENCES x) = None"
    by (simp add: strip_id_def falsy_id_def)
  have start: "keygen (evidences_store ana_selected) = 1"
    by (simp add: ana_selected_def fresh_state_def)
  from clearAndBulkAdd_atomic [OF given] clearAndBulkAdd_atomic [OF generated]
       clearAndBulkAdd_atomic [OF aborted] clearAndBulkAdd_atomic [OF late]
       given generated aborted late all_generated start
  show ?thesis
    by (simp add: getAll_def)
qed

end
